theory Spec2Isabelle
  imports Main "HOL-Library.Multiset" "HOL-Library.List_Lexorder" "HOL-Library.Char_ord"
begin

section \<open>Python values and errors\<close>

text \<open>
  The exceptions that \<^verbatim>\<open>shard.py\<close> raises or lets through. \<open>Py4JJavaError\<close> is the
  driver-side exception of a failed Spark job and carries the failure of the task;
  it is a subclass of \<open>Py4JError\<close>. \<open>SparkException\<close> is a failure inside the engine.
  \<open>Unmodelled\<close> marks library behaviour outside the domain modelled here (for
  instance \<^verbatim>\<open>pd.concat\<close> of tables with different columns); every theorem below
  keeps its inputs inside the modelled domain.
\<close>

datatype py_error =
    AssertionError string
  | ValueError string
  | PyException string
  | TypeError string
  | IndexError string
  | KeyError string
  | AttributeError string
  | Py4JError string
  | Py4JJavaError py_error
  | SparkException string
  | ZeroDivisionError string
  | Unmodelled string

type_synonym 'r outcome = "py_error + 'r"

fun is_Py4JError :: "py_error \<Rightarrow> bool" where
  "is_Py4JError (Py4JError _) = True"
| "is_Py4JError (Py4JJavaError _) = True"
| "is_Py4JError _ = False"

text \<open>
  The shards this file handles. Leaf values are integers and strings; a dictionary
  is its list of items in insertion order. An \<open>NdArray\<close> is a numpy
  array: its shape, its dtype and its buffer in row-major order. A \<open>DataFrame\<close> is a
  pandas table: column labels, the dtype of each column, and the rows.
\<close>

datatype pyobj =
    PyInt int
  | PyStr string
  | PyList "pyobj list"
  | PyTuple "pyobj list"
  | PyDict "(pyobj \<times> pyobj) list"
  | NdArray "nat list" string "int list"
  | DataFrame "string list" "string list" "int list list"

text \<open>
  \<^verbatim>\<open>get_class_name\<close> comes from \<^verbatim>\<open>zoo.orca.data.utils\<close>, which is not part of the
  sources at hand. \<^verbatim>\<open>repartition\<close> compares its result with the module-qualified
  class names below, so it is modelled as the qualified name of the object's class
  (unqualified for builtins).
\<close>

fun get_class_name :: "pyobj \<Rightarrow> string" where
  "get_class_name (PyInt _) = ''int''"
| "get_class_name (PyStr _) = ''str''"
| "get_class_name (PyList _) = ''list''"
| "get_class_name (PyTuple _) = ''tuple''"
| "get_class_name (PyDict _) = ''dict''"
| "get_class_name (NdArray _ _ _) = ''numpy.ndarray''"
| "get_class_name (DataFrame _ _ _) = ''pandas.core.frame.DataFrame''"

section \<open>The Spark substrate\<close>

text \<open>
  An RDD is the list of its partitions. Spark evaluates lazily, so a partition is the
  outcome of its task: the elements it yields, or the error the task dies with. A
  list comprehension or a job stops at the first failure.
\<close>

type_synonym 'a rdd = "(py_error + 'a list) list"

primrec first_error :: "('e + 'a) list \<Rightarrow> 'e + 'a list" where
  "first_error [] = Inr []"
| "first_error (x # xs) =
     (case x of
        Inl e \<Rightarrow> Inl e
      | Inr v \<Rightarrow> (case first_error xs of Inl e \<Rightarrow> Inl e | Inr vs \<Rightarrow> Inr (v # vs)))"

definition getNumPartitions :: "'a rdd \<Rightarrow> nat" where
  "getNumPartitions r = length r"

definition rdd_collect :: "'a rdd \<Rightarrow> 'a list outcome" where
  "rdd_collect r =
     (case first_error r of Inl e \<Rightarrow> Inl (Py4JJavaError e) | Inr ps \<Rightarrow> Inr (concat ps))"

definition rdd_count :: "'a rdd \<Rightarrow> nat outcome" where
  "rdd_count r =
     (case first_error r of Inl e \<Rightarrow> Inl (Py4JJavaError e) | Inr ps \<Rightarrow> Inr (length (concat ps)))"

text \<open>
  \<^verbatim>\<open>first()\<close> scans the partitions in order and returns the first element it meets;
  an RDD without elements raises \<^verbatim>\<open>ValueError\<close>.
\<close>

fun rdd_first :: "'a rdd \<Rightarrow> 'a outcome" where
  "rdd_first [] = Inl (ValueError ''RDD is empty'')"
| "rdd_first (Inl e # ps) = Inl (Py4JJavaError e)"
| "rdd_first (Inr [] # ps) = rdd_first ps"
| "rdd_first (Inr (x # xs) # ps) = Inr x"

definition mapPartitions :: "('a list \<Rightarrow> 'b list outcome) \<Rightarrow> 'a rdd \<Rightarrow> 'b rdd" where
  "mapPartitions f r = map (\<lambda>p. case p of Inl e \<Rightarrow> Inl e | Inr xs \<Rightarrow> f xs) r"

definition rdd_map :: "('a \<Rightarrow> 'b outcome) \<Rightarrow> 'a rdd \<Rightarrow> 'b rdd" where
  "rdd_map f r = mapPartitions (\<lambda>xs. first_error (map f xs)) r"

definition flatMap :: "('a \<Rightarrow> 'b list outcome) \<Rightarrow> 'a rdd \<Rightarrow> 'b rdd" where
  "flatMap f r =
     mapPartitions
       (\<lambda>xs. case first_error (map f xs) of Inl e \<Rightarrow> Inl e | Inr ys \<Rightarrow> Inr (concat ys)) r"

section \<open>SparkXShards: construction and cache state\<close>

text \<open>
  The process-wide settings and the behaviour of the engine that the methods read:
  \<open>eager_mode\<close> is \<^verbatim>\<open>OrcaContext._eager_mode\<close>; \<open>unpersist_raises\<close> is the exception
  that \<^verbatim>\<open>rdd.unpersist()\<close> raises, if any.
\<close>

record env =
  eager_mode :: bool
  unpersist_raises :: "py_error option"

text \<open>
  The fields of a \<^verbatim>\<open>SparkXShards\<close>. \<open>rdd_is_cached\<close> is the flag \<^verbatim>\<open>self.rdd.is_cached\<close>
  of the RDD object; \<open>type_class_name\<close> and \<open>type_schema\<close> are the two entries of the
  dictionary \<^verbatim>\<open>self.type\<close>.
\<close>

record SparkXShards =
  rdd :: "pyobj rdd"
  rdd_is_cached :: bool
  user_cached :: bool
  eager :: bool
  type_class_name :: "string option"
  type_schema :: "(string list \<times> string list) option"

definition compute :: "SparkXShards \<Rightarrow> unit outcome" where
  "compute s = (case rdd_count (rdd s) of Inl e \<Rightarrow> Inl e | Inr _ \<Rightarrow> Inr ())"

text \<open>
  \<^verbatim>\<open>__init__(rdd, transient)\<close>, for an RDD that is not cached yet (every RDD this
  file hands to the constructor is a fresh one).
\<close>

definition SparkXShards_init :: "env \<Rightarrow> pyobj rdd \<Rightarrow> bool \<Rightarrow> SparkXShards outcome" where
  "SparkXShards_init e r transient =
     (let s = \<lparr>rdd = r, rdd_is_cached = \<not> transient, user_cached = False,
                eager = (if transient then False else eager_mode e),
                type_class_name = None, type_schema = None\<rparr>
      in if eager s
         then (case compute s of Inl err \<Rightarrow> Inl err | Inr _ \<Rightarrow> Inr s)
         else Inr s)"

definition collect :: "SparkXShards \<Rightarrow> pyobj list outcome" where
  "collect s = rdd_collect (rdd s)"

definition num_partitions :: "SparkXShards \<Rightarrow> nat" where
  "num_partitions s = getNumPartitions (rdd s)"

definition cache :: "SparkXShards \<Rightarrow> SparkXShards" where
  "cache s = s\<lparr>user_cached := True, rdd_is_cached := True\<rparr>"

definition is_cached :: "SparkXShards \<Rightarrow> bool" where
  "is_cached s = rdd_is_cached s"

text \<open>
  \<^verbatim>\<open>uncache\<close> returns the outcome of the call, the receiver after the call and the
  lines printed. PySpark's \<^verbatim>\<open>unpersist\<close> clears \<^verbatim>\<open>is_cached\<close> before it calls the
  JVM, so the flag is cleared even when the call raises.
\<close>

definition uncache :: "env \<Rightarrow> SparkXShards \<Rightarrow> unit outcome \<times> SparkXShards \<times> string list" where
  "uncache e s =
     (let s1 = s\<lparr>user_cached := False\<rparr> in
      if is_cached s1 then
        (case unpersist_raises e of
           None \<Rightarrow> (Inr (), s1\<lparr>rdd_is_cached := False\<rparr>, [])
         | Some err \<Rightarrow>
             if is_Py4JError err
             then (Inr (), s1\<lparr>rdd_is_cached := False\<rparr>, [''Try to unpersist an uncached rdd''])
             else (Inl err, s1\<lparr>rdd_is_cached := False\<rparr>, []))
      else (Inr (), s1, []))"

definition private_uncache :: "env \<Rightarrow> SparkXShards \<Rightarrow> unit outcome \<times> SparkXShards \<times> string list" where
  "private_uncache e s = (if \<not> user_cached s then uncache e s else (Inr (), s, []))"

text \<open>The three cache states of the specification, read off the two flags.\<close>

datatype cache_state = Uncached | SystemCached | UserCached

definition cache_state_of :: "SparkXShards \<Rightarrow> cache_state" where
  "cache_state_of s =
     (if user_cached s then UserCached else if rdd_is_cached s then SystemCached else Uncached)"


section \<open>Transforming, splitting and zipping\<close>

text \<open>
  Every method below returns the outcome of the call (the value returned, or the
  exception raised), the receiver after the call, and the lines printed. \<^verbatim>\<open>func\<close>
  may raise, so it returns an outcome.
\<close>

definition transform_shard ::
  "env \<Rightarrow> (pyobj \<Rightarrow> pyobj outcome) \<Rightarrow> SparkXShards \<Rightarrow>
     SparkXShards outcome \<times> SparkXShards \<times> string list" where
  "transform_shard e func s =
     (case SparkXShards_init e
             (mapPartitions (\<lambda>iter. first_error (map func iter)) (rdd s)) False of
        Inl err \<Rightarrow> (Inl err, s, [])
      | Inr transformed_shard \<Rightarrow>
          (case private_uncache e s of
             (Inl err, s', out) \<Rightarrow> (Inl err, s', out)
           | (Inr _, s', out) \<Rightarrow> (Inr transformed_shard, s', out)))"

text \<open>
  \<^verbatim>\<open>len(data) if isinstance(data, list) or isinstance(data, tuple) else 1\<close>, and
  \<^verbatim>\<open>data[order]\<close> for a natural number \<^verbatim>\<open>order\<close>.
\<close>

fun split_length :: "pyobj \<Rightarrow> nat" where
  "split_length (PyList xs) = length xs"
| "split_length (PyTuple xs) = length xs"
| "split_length _ = 1"

fun get_data :: "nat \<Rightarrow> pyobj \<Rightarrow> pyobj outcome" where
  "get_data order (PyList xs) =
     (if order < length xs then Inr (xs ! order) else Inl (IndexError ''list index out of range''))"
| "get_data order (PyTuple xs) =
     (if order < length xs then Inr (xs ! order) else Inl (IndexError ''tuple index out of range''))"
| "get_data order (PyStr cs) =
     (if order < length cs then Inr (PyStr [cs ! order])
      else Inl (IndexError ''string index out of range''))"
| "get_data order (PyInt _) = Inl (TypeError ''int object is not subscriptable'')"
| "get_data order (PyDict kvs) =
     (case map_of kvs (PyInt (int order)) of
        Some v \<Rightarrow> Inr v
      | None \<Rightarrow> Inl (KeyError ''key not in dict''))"
| "get_data order (NdArray shp dt buf) =
     (case shp of
        [] \<Rightarrow> Inl (IndexError ''too many indices for array'')
      | k # rest \<Rightarrow>
          if order < k
          then Inr (NdArray rest dt (take (prod_list rest) (drop (order * prod_list rest) buf)))
          else Inl (IndexError ''index out of bounds''))"
| "get_data order (DataFrame cols dts rws) = Inl (KeyError ''column label not found'')"

definition split_shards ::
  "env \<Rightarrow> SparkXShards \<Rightarrow> SparkXShards list outcome \<times> SparkXShards \<times> string list" where
  "split_shards e s =
     (case rdd_collect (rdd_map (\<lambda>data. Inr (split_length data)) (rdd s)) of
        Inl err \<Rightarrow> (Inl err, s, [])
      | Inr list_split_length \<Rightarrow>
          (case list_split_length of
             [] \<Rightarrow> (Inl (IndexError ''list index out of range''), s, [])
           | l0 # _ \<Rightarrow>
               if count_list list_split_length l0 \<noteq> length list_split_length
               then (Inl (PyException
                       ''Cannot split this XShards because its partitions have different split length''),
                     s, [])
               else if l0 > 1
               then (case first_error
                            (map (\<lambda>i. SparkXShards_init e (rdd_map (get_data i) (rdd s)) False)
                               [0..<l0]) of
                       Inl err \<Rightarrow> (Inl err, s, [])
                     | Inr split_shard_list \<Rightarrow>
                         (case private_uncache e s of
                            (Inl err, s', out) \<Rightarrow> (Inl err, s', out)
                          | (Inr _, s', out) \<Rightarrow> (Inr split_shard_list, s', out)))
               else (Inr [s], s, [])))"

text \<open>
  \<^verbatim>\<open>RDD.zip\<close>: PySpark refuses RDDs with different numbers of partitions at once; a
  different number of elements in a pair of partitions only shows when that
  partition is computed. The zipped elements are Python pairs.
\<close>

definition zip_partition ::
  "py_error + pyobj list \<Rightarrow> py_error + pyobj list \<Rightarrow> py_error + pyobj list" where
  "zip_partition p q =
     (case p of
        Inl err \<Rightarrow> Inl err
      | Inr xs \<Rightarrow>
          (case q of
             Inl err \<Rightarrow> Inl err
           | Inr ys \<Rightarrow>
               if length xs = length ys
               then Inr (map2 (\<lambda>x y. PyTuple [x, y]) xs ys)
               else Inl (SparkException
                 ''Can only zip RDDs with same number of elements in each partition'')))"

definition rdd_zip :: "pyobj rdd \<Rightarrow> pyobj rdd \<Rightarrow> pyobj rdd outcome" where
  "rdd_zip a b =
     (if getNumPartitions a \<noteq> getNumPartitions b
      then Inl (ValueError ''Can only zip with RDD which has the same number of partitions'')
      else Inr (map2 zip_partition a b))"

text \<open>
  The store-backed collection: \<^verbatim>\<open>RayPartition\<close> is built in \<^verbatim>\<open>to_ray\<close> from these
  three fields; \<^verbatim>\<open>RayXShards\<close> keeps what its constructor is given.
\<close>

record RayPartition =
  object_id :: string
  node_ip :: string
  object_store_address :: string

record RayXShards =
  ray_rdd :: "RayPartition list"

text \<open>What a caller may pass as \<^verbatim>\<open>other\<close>: Python does not type the argument.\<close>

datatype other_arg = OtherSpark SparkXShards | OtherRay RayXShards | OtherObject pyobj

text \<open>
  The body of the \<^verbatim>\<open>try\<close> block of \<^verbatim>\<open>zip\<close>, for two distinct objects \<^verbatim>\<open>self\<close> and
  \<^verbatim>\<open>other\<close>: it returns the outcome and both operands after it.
\<close>

definition zip_try ::
  "env \<Rightarrow> SparkXShards \<Rightarrow> SparkXShards \<Rightarrow>
     SparkXShards outcome \<times> SparkXShards \<times> SparkXShards \<times> string list" where
  "zip_try e s other =
     (case rdd_zip (rdd s) (rdd other) of
        Inl err \<Rightarrow> (Inl err, s, other, [])
      | Inr r \<Rightarrow>
          (case SparkXShards_init e r False of
             Inl err \<Rightarrow> (Inl err, s, other, [])
           | Inr zipped_shard \<Rightarrow>
               (case private_uncache e other of
                  (Inl err, other', out1) \<Rightarrow> (Inl err, s, other', out1)
                | (Inr _, other', out1) \<Rightarrow>
                    (case private_uncache e s of
                       (Inl err, s', out2) \<Rightarrow> (Inl err, s', other', out1 @ out2)
                     | (Inr _, s', out2) \<Rightarrow> (Inr zipped_shard, s', other', out1 @ out2)))))"

definition zip_shards ::
  "env \<Rightarrow> SparkXShards \<Rightarrow> other_arg \<Rightarrow>
     SparkXShards outcome \<times> SparkXShards \<times> other_arg \<times> string list" where
  "zip_shards e s other =
     (case other of
        OtherSpark other_shards \<Rightarrow>
          if num_partitions s \<noteq> num_partitions other_shards
          then (Inl (AssertionError
                  ''The two SparkXShards should have the same number of partitions''),
                s, other, [])
          else (case zip_try e s other_shards of
                  (Inl err, s', other', out) \<Rightarrow>
                    (Inl (ValueError
                       ''The two SparkXShards should have the same number of elements in each partition''),
                     s', OtherSpark other', out)
                | (Inr zipped_shard, s', other', out) \<Rightarrow>
                    (Inr zipped_shard, s', OtherSpark other', out))
      | _ \<Rightarrow> (Inl (AssertionError ''other should be a SparkXShards''), s, other, []))"

section \<open>Shuffles and coalescing\<close>

text \<open>
  What the engine decides in a shuffle. \<open>portable_hash\<close> is the hash that
  \<^verbatim>\<open>partitionBy\<close> applies to a key (a pair goes to bucket \<^verbatim>\<open>portable_hash(key) % n\<close>);
  \<open>shuffle_target j\<close> is where \<^verbatim>\<open>RDD.repartition\<close> sends the element at position \<open>j\<close> of
  the flattened parent (the element goes to bucket \<open>shuffle_target j mod n\<close>). Spark
  fixes neither the placement of \<^verbatim>\<open>repartition\<close> nor the order in which a bucket
  receives its elements; buckets are listed here in the order of the parent.
\<close>

record shuffle =
  portable_hash :: "int \<Rightarrow> int"
  shuffle_target :: "nat \<Rightarrow> nat"

definition partitionBy :: "nat \<Rightarrow> ('k \<Rightarrow> int) \<Rightarrow> ('k \<times> 'v) rdd \<Rightarrow> ('k \<times> 'v) rdd" where
  "partitionBy n h r =
     (case first_error r of
        Inl e \<Rightarrow> replicate n (Inl e)
      | Inr ps \<Rightarrow>
          map (\<lambda>i. Inr (filter (\<lambda>kv. nat (h (fst kv) mod int n) = i) (concat ps))) [0..<n])"

definition distribute :: "(nat \<Rightarrow> nat) \<Rightarrow> nat \<Rightarrow> 'a list \<Rightarrow> 'a list list" where
  "distribute target n xs =
     map (\<lambda>i. map snd (filter (\<lambda>jx. target (fst jx) mod n = i) (enumerate 0 xs))) [0..<n]"

definition rdd_repartition :: "(nat \<Rightarrow> nat) \<Rightarrow> nat \<Rightarrow> 'a rdd \<Rightarrow> 'a rdd outcome" where
  "rdd_repartition target n r =
     (if n = 0
      then Inl (Py4JJavaError (SparkException ''Number of partitions must be positive''))
      else Inr (case first_error r of
                  Inl e \<Rightarrow> replicate n (Inl e)
                | Inr ps \<Rightarrow> map Inr (distribute target n (concat ps))))"

text \<open>
  \<^verbatim>\<open>coalesce(n)\<close> without a shuffle never raises the number of partitions; to go
  down it gives output partition \<open>i\<close> the parents from \<open>i * len div n\<close> up to, not
  including, \<open>(i + 1) * len div n\<close> (the grouping Spark uses when the parents have no
  preferred locations).
\<close>

definition rdd_coalesce :: "nat \<Rightarrow> 'a rdd \<Rightarrow> 'a rdd outcome" where
  "rdd_coalesce n r =
     (if n = 0
      then Inl (Py4JJavaError (SparkException ''Number of partitions must be positive''))
      else if length r \<le> n then Inr r
      else Inr (map (\<lambda>i. case first_error
                              (take ((i + 1) * length r div n - i * length r div n)
                                 (drop (i * length r div n) r)) of
                          Inl e \<Rightarrow> Inl e
                        | Inr ps \<Rightarrow> Inr (concat ps))
                  [0..<n]))"

section \<open>What repartition asks of Python, pandas and numpy\<close>

text \<open>Iterating over an object, as \<^verbatim>\<open>flatMap(lambda data: data)\<close> and \<^verbatim>\<open>list(data)\<close> do.\<close>

fun py_iter :: "pyobj \<Rightarrow> pyobj list outcome" where
  "py_iter (PyList xs) = Inr xs"
| "py_iter (PyTuple xs) = Inr xs"
| "py_iter (PyStr cs) = Inr (map (\<lambda>c. PyStr [c]) cs)"
| "py_iter (PyDict kvs) = Inr (map fst kvs)"
| "py_iter (PyInt _) = Inl (TypeError ''int object is not iterable'')"
| "py_iter (NdArray shp dt buf) =
     (case shp of
        [] \<Rightarrow> Inl (TypeError ''iteration over a 0-d array'')
      | k # rest \<Rightarrow>
          Inr (map (\<lambda>i. NdArray rest dt (take (prod_list rest) (drop (i * prod_list rest) buf)))
                 [0..<k]))"
| "py_iter (DataFrame cols dts rws) = Inr (map PyStr cols)"

text \<open>
  \<^verbatim>\<open>df.apply(lambda row: (row[0], row.values.tolist()), axis=1).values.tolist()\<close>: one
  pair per row, keyed by the value in the first column.
\<close>

fun keyed_rows :: "pyobj \<Rightarrow> (int \<times> int list) list outcome" where
  "keyed_rows (DataFrame cols dts rws) =
     first_error
       (map (\<lambda>row. case row of
                 [] \<Rightarrow> Inl (IndexError ''index 0 is out of bounds for axis 0 with size 0'')
               | k # _ \<Rightarrow> Inr (k, row))
          rws)"
| "keyed_rows _ = Inl (AttributeError ''object has no attribute apply'')"

fun columns_dtypes :: "pyobj \<Rightarrow> (string list \<times> string list) outcome" where
  "columns_dtypes (DataFrame cols dts rws) = Inr (cols, dts)"
| "columns_dtypes _ = Inl (AttributeError ''object has no attribute columns'')"

text \<open>\<^verbatim>\<open>pd.DataFrame(data=data, columns=columns).astype(dtypes)\<close> for rows that fit the columns.\<close>

definition pd_DataFrame :: "int list list \<Rightarrow> string list \<Rightarrow> string list \<Rightarrow> pyobj outcome" where
  "pd_DataFrame data cols dts =
     (if list_all (\<lambda>row. length row = length cols) data
      then Inr (DataFrame cols dts data)
      else Inl (Unmodelled ''pd.DataFrame of rows that do not fit the columns''))"

fun is_DataFrame :: "pyobj \<Rightarrow> bool" where
  "is_DataFrame (DataFrame _ _ _) = True"
| "is_DataFrame _ = False"

fun df_rows :: "pyobj \<Rightarrow> int list list" where
  "df_rows (DataFrame _ _ rws) = rws"
| "df_rows _ = []"

text \<open>\<^verbatim>\<open>pd.concat(dfs)\<close> for tables that share their columns and dtypes.\<close>

definition pd_concat :: "pyobj list \<Rightarrow> pyobj outcome" where
  "pd_concat dfs =
     (case dfs of
        [] \<Rightarrow> Inl (ValueError ''No objects to concatenate'')
      | d # _ \<Rightarrow>
          if \<not> list_all is_DataFrame dfs
          then Inl (TypeError ''cannot concatenate object that is not a Series or DataFrame'')
          else if list_all (\<lambda>x. columns_dtypes x = columns_dtypes d) dfs
          then (case columns_dtypes d of
                  Inl e \<Rightarrow> Inl e
                | Inr (cols, dts) \<Rightarrow> Inr (DataFrame cols dts (concat (map df_rows dfs))))
          else Inl (Unmodelled ''pd.concat of tables with different columns or dtypes''))"

text \<open>\<^verbatim>\<open>l1 + l2\<close> and \<^verbatim>\<open>functools.reduce(lambda l1, l2: l1 + l2, iter)\<close>.\<close>

fun py_add :: "pyobj \<Rightarrow> pyobj \<Rightarrow> pyobj outcome" where
  "py_add (PyList a) (PyList b) = Inr (PyList (a @ b))"
| "py_add (PyTuple a) (PyTuple b) = Inr (PyTuple (a @ b))"
| "py_add (PyInt a) (PyInt b) = Inr (PyInt (a + b))"
| "py_add (PyStr a) (PyStr b) = Inr (PyStr (a @ b))"
| "py_add (NdArray _ _ _) _ = Inl (Unmodelled ''numpy addition'')"
| "py_add _ (NdArray _ _ _) = Inl (Unmodelled ''numpy addition'')"
| "py_add (DataFrame _ _ _) _ = Inl (Unmodelled ''pandas addition'')"
| "py_add _ (DataFrame _ _ _) = Inl (Unmodelled ''pandas addition'')"
| "py_add _ _ = Inl (TypeError ''unsupported operand types for +'')"

fun reduce_from :: "pyobj \<Rightarrow> pyobj list \<Rightarrow> pyobj outcome" where
  "reduce_from acc [] = Inr acc"
| "reduce_from acc (x # xs) =
     (case py_add acc x of Inl e \<Rightarrow> Inl e | Inr acc' \<Rightarrow> reduce_from acc' xs)"

definition reduce_add :: "pyobj list \<Rightarrow> pyobj outcome" where
  "reduce_add iter =
     (case iter of
        [] \<Rightarrow> Inl (TypeError ''reduce() of empty sequence with no initial value'')
      | x # xs \<Rightarrow> reduce_from x xs)"

fun is_NdArray :: "pyobj \<Rightarrow> bool" where
  "is_NdArray (NdArray _ _ _) = True"
| "is_NdArray _ = False"

fun nd_shape :: "pyobj \<Rightarrow> nat list" where
  "nd_shape (NdArray shp _ _) = shp"
| "nd_shape _ = []"

fun nd_dtype :: "pyobj \<Rightarrow> string" where
  "nd_dtype (NdArray _ dt _) = dt"
| "nd_dtype _ = []"

fun nd_buffer :: "pyobj \<Rightarrow> int list" where
  "nd_buffer (NdArray _ _ buf) = buf"
| "nd_buffer _ = []"

text \<open>
  What \<^verbatim>\<open>mapPartitions\<close> yields for \<^verbatim>\<open>np.stack([list(iter)], axis=0).astype(dtype)\<close>: the
  stacked array has one more leading axis of length 1, so iterating over it yields
  one array, the items stacked along a new first axis. Without items that array has
  shape \<^verbatim>\<open>(0,)\<close>. Items of one shape and of the dtype asked for are modelled.
\<close>

definition np_stack_astype :: "string \<Rightarrow> pyobj list \<Rightarrow> pyobj list outcome" where
  "np_stack_astype dtype iter =
     (case iter of
        [] \<Rightarrow> Inr [NdArray [0] dtype []]
      | x # _ \<Rightarrow>
          if \<not> list_all is_NdArray iter
          then Inl (Unmodelled ''np.stack of objects that are not arrays'')
          else if \<not> list_all (\<lambda>y. nd_shape y = nd_shape x) iter
          then Inl (ValueError ''setting an array element with a sequence: inhomogeneous shape'')
          else if \<not> list_all (\<lambda>y. nd_dtype y = dtype) iter
          then Inl (Unmodelled ''astype to another dtype'')
          else Inr [NdArray (length iter # nd_shape x) dtype (concat (map nd_buffer iter))])"

text \<open>\<^verbatim>\<open>np.concatenate(arrays, axis=0)\<close> for arrays of one dtype.\<close>

definition np_concatenate :: "pyobj list \<Rightarrow> pyobj outcome" where
  "np_concatenate arrays =
     (case arrays of
        [] \<Rightarrow> Inl (ValueError ''need at least one array to concatenate'')
      | x # _ \<Rightarrow>
          if \<not> list_all is_NdArray arrays
          then Inl (Unmodelled ''np.concatenate of objects that are not arrays'')
          else if list_ex (\<lambda>y. nd_shape y = []) arrays
          then Inl (ValueError ''zero-dimensional arrays cannot be concatenated'')
          else if \<not> list_all (\<lambda>y. tl (nd_shape y) = tl (nd_shape x)) arrays
          then Inl (ValueError
                 ''all the input array dimensions except for the concatenation axis must match exactly'')
          else if \<not> list_all (\<lambda>y. nd_dtype y = nd_dtype x) arrays
          then Inl (Unmodelled ''np.concatenate of arrays with different dtypes'')
          else Inr (NdArray (sum_list (map (\<lambda>y. hd (nd_shape y)) arrays) # tl (nd_shape x))
                      (nd_dtype x) (concat (map nd_buffer arrays))))"

section \<open>repartition\<close>

text \<open>
  \<^verbatim>\<open>_for_each(get_class_name)\<close> wraps the call in a \<^verbatim>\<open>try\<close> that returns the exception
  as a value; \<^verbatim>\<open>get_class_name\<close> does not raise, so every element maps to its class
  name. Both getters fill \<^verbatim>\<open>self.type\<close> on their first call.
\<close>

definition private_get_class_name :: "SparkXShards \<Rightarrow> string outcome \<times> SparkXShards" where
  "private_get_class_name s =
     (case type_class_name s of
        Some c \<Rightarrow> (Inr c, s)
      | None \<Rightarrow>
          (case rdd_first (rdd_map (\<lambda>x. Inr (get_class_name x)) (rdd s)) of
             Inl err \<Rightarrow> (Inl err, s)
           | Inr c \<Rightarrow> (Inr c, s\<lparr>type_class_name := Some c\<rparr>)))"

definition private_get_schema ::
  "SparkXShards \<Rightarrow> (string list \<times> string list) option outcome \<times> SparkXShards" where
  "private_get_schema s =
     (case type_schema s of
        Some sc \<Rightarrow> (Inr (Some sc), s)
      | None \<Rightarrow>
          (case private_get_class_name s of
             (Inl err, s1) \<Rightarrow> (Inl err, s1)
           | (Inr c, s1) \<Rightarrow>
               if c = ''pandas.core.frame.DataFrame''
               then (case rdd_first (rdd_map columns_dtypes (rdd s1)) of
                       Inl err \<Rightarrow> (Inl err, s1)
                     | Inr sc \<Rightarrow> (Inr (Some sc), s1\<lparr>type_schema := Some sc\<rparr>))
               else (Inr None, s1)))"

definition merge_rows ::
  "(string list \<times> string list) option \<Rightarrow> (int \<times> int list) list \<Rightarrow> pyobj list outcome" where
  "merge_rows schema iter =
     (let data = map snd iter in
      if data \<noteq> []
      then (case schema of
              None \<Rightarrow> Inl (TypeError ''NoneType object is not subscriptable'')
            | Some (cols, dts) \<Rightarrow>
                (case pd_DataFrame data cols dts of Inl e \<Rightarrow> Inl e | Inr df \<Rightarrow> Inr [df]))
      else Inr [])"

definition combine_df :: "pyobj list \<Rightarrow> pyobj list outcome" where
  "combine_df dfs =
     (if length dfs > 0
      then (case pd_concat dfs of Inl e \<Rightarrow> Inl e | Inr df \<Rightarrow> Inr [df])
      else Inr [])"

definition one_item :: "pyobj outcome \<Rightarrow> pyobj list outcome" where
  "one_item v = (case v of Inl e \<Rightarrow> Inl e | Inr x \<Rightarrow> Inr [x])"

text \<open>
  The RDD that \<^verbatim>\<open>repartition\<close> hands to the constructor, for the class name \<open>c\<close> that
  \<^verbatim>\<open>_get_class_name()\<close> returned (its later calls in the \<^verbatim>\<open>elif\<close> chain read the cached
  name), with the receiver as \<^verbatim>\<open>_get_schema()\<close> leaves it.
\<close>

definition repartitioned_rdd ::
  "shuffle \<Rightarrow> nat \<Rightarrow> string \<Rightarrow> SparkXShards \<Rightarrow> pyobj rdd outcome \<times> SparkXShards" where
  "repartitioned_rdd sh n c s =
     (if c = ''pandas.core.frame.DataFrame'' then
        if n > getNumPartitions (rdd s)
        then (let r = partitionBy n (portable_hash sh) (flatMap keyed_rows (rdd s)) in
              case private_get_schema s of
                (Inl err, s1) \<Rightarrow> (Inl err, s1)
              | (Inr schema, s1) \<Rightarrow> (Inr (mapPartitions (merge_rows schema) r), s1))
        else (case rdd_coalesce n (rdd s) of
                Inl err \<Rightarrow> (Inl err, s)
              | Inr r \<Rightarrow> (Inr (mapPartitions combine_df r), s))
      else if c = ''list'' then
        if n > getNumPartitions (rdd s)
        then (case rdd_repartition (shuffle_target sh) n (flatMap py_iter (rdd s)) of
                Inl err \<Rightarrow> (Inl err, s)
              | Inr r \<Rightarrow> (Inr (mapPartitions (\<lambda>iter. Inr [PyList iter]) r), s))
        else (case rdd_coalesce n (rdd s) of
                Inl err \<Rightarrow> (Inl err, s)
              | Inr r \<Rightarrow> (Inr (mapPartitions (\<lambda>iter. one_item (reduce_add iter)) r), s))
      else if c = ''numpy.ndarray'' then
        (case rdd_first (rdd s) of
           Inl err \<Rightarrow> (Inl err, s)
         | Inr elem \<Rightarrow>
             if \<not> is_NdArray elem
             then (Inl (AttributeError ''object has no attribute shape''), s)
             else if length (nd_shape elem) > 0 then
               if n > getNumPartitions (rdd s)
               then (case rdd_repartition (shuffle_target sh) n (flatMap py_iter (rdd s)) of
                       Inl err \<Rightarrow> (Inl err, s)
                     | Inr r \<Rightarrow> (Inr (mapPartitions (np_stack_astype (nd_dtype elem)) r), s))
               else (case rdd_coalesce n (rdd s) of
                       Inl err \<Rightarrow> (Inl err, s)
                     | Inr r \<Rightarrow>
                         (Inr (mapPartitions (\<lambda>iter. one_item (np_concatenate iter)) r), s))
             else (rdd_repartition (shuffle_target sh) n (rdd s), s))
      else (rdd_repartition (shuffle_target sh) n (rdd s), s))"

definition repartition ::
  "env \<Rightarrow> shuffle \<Rightarrow> nat \<Rightarrow> SparkXShards \<Rightarrow>
     SparkXShards outcome \<times> SparkXShards \<times> string list" where
  "repartition e sh n s =
     (case private_get_class_name s of
        (Inl err, s1) \<Rightarrow> (Inl err, s1, [])
      | (Inr c, s1) \<Rightarrow>
          (case repartitioned_rdd sh n c s1 of
             (Inl err, s2) \<Rightarrow> (Inl err, s2, [])
           | (Inr r, s2) \<Rightarrow>
               (case SparkXShards_init e r False of
                  Inl err \<Rightarrow> (Inl err, s2, [])
                | Inr repartitioned_shard \<Rightarrow>
                    (case private_uncache e s2 of
                       (Inl err, s3, out) \<Rightarrow> (Inl err, s3, out)
                     | (Inr _, s3, out) \<Rightarrow> (Inr repartitioned_shard, s3, out)))))"

section \<open>The handoff to the object store\<close>

text \<open>
  The plasma store: the objects it holds, by identifier, and the number of writes it
  has accepted. What \<^verbatim>\<open>to_ray\<close> reads from its surroundings: the address of the store,
  the identifier that the \<open>i\<close>-th call of \<^verbatim>\<open>ObjectID.from_random()\<close> returns, the node
  on which the task of partition \<open>i\<close> runs, and the identifier a \<^verbatim>\<open>put\<close> under a
  given identifier hands back (the identifier itself, for a store that works).
\<close>

record plasma =
  objects :: "string \<rightharpoonup> pyobj list"
  writes :: nat

record ray_env =
  store_address :: string
  from_random :: "nat \<Rightarrow> string"
  get_node_ip :: "nat \<Rightarrow> string"
  put_returns :: "string \<Rightarrow> string"

definition contains :: "plasma \<Rightarrow> string \<Rightarrow> bool" where
  "contains store oid = (objects store oid \<noteq> None)"

text \<open>\<^verbatim>\<open>client.put(value, object_id)\<close>: plasma refuses an identifier it already holds.\<close>

definition client_put ::
  "ray_env \<Rightarrow> plasma \<Rightarrow> pyobj list \<Rightarrow> string \<Rightarrow> string outcome \<times> plasma" where
  "client_put renv store v oid =
     (if contains store oid
      then (Inl (PyException ''PlasmaObjectExists''), store)
      else (Inr (put_returns renv oid),
            store\<lparr>objects := (objects store)(oid \<mapsto> v), writes := Suc (writes store)\<rparr>))"

text \<open>
  The function \<^verbatim>\<open>f(index, iterator)\<close> that \<^verbatim>\<open>put_to_plasma(ids)\<close> returns, run on one
  partition: it yields one pair, the identifier and the node of the task.
\<close>

definition put_to_plasma ::
  "ray_env \<Rightarrow> string list \<Rightarrow> nat \<Rightarrow> pyobj list \<Rightarrow> plasma \<Rightarrow>
     (string \<times> string) outcome \<times> plasma" where
  "put_to_plasma renv ids index res store =
     (if \<not> index < length ids then (Inl (IndexError ''list index out of range''), store)
      else
        let target_id = ids ! index in
        if \<not> contains store target_id
        then (case client_put renv store res target_id of
                (Inl err, store') \<Rightarrow> (Inl err, store')
              | (Inr oid, store') \<Rightarrow>
                  if oid = target_id
                  then (Inr (target_id, get_node_ip renv index), store')
                  else (Inl (AssertionError
                          ''Errors occurred when putting data into plasma object store''),
                        store'))
        else (Inr (target_id, get_node_ip renv index), store))"

text \<open>
  \<^verbatim>\<open>rdd.mapPartitionsWithIndex(put_to_plasma(object_ids)).collect()\<close>: the tasks in
  the order of their partitions, from partition \<open>i\<close> on; the job fails with the
  first task that fails, and what was written stays written.
\<close>

fun run_tasks ::
  "ray_env \<Rightarrow> string list \<Rightarrow> nat \<Rightarrow> pyobj rdd \<Rightarrow> plasma \<Rightarrow>
     (string \<times> string) list outcome \<times> plasma" where
  "run_tasks renv ids i [] store = (Inr [], store)"
| "run_tasks renv ids i (p # ps) store =
     (case p of
        Inl err \<Rightarrow> (Inl (Py4JJavaError err), store)
      | Inr res \<Rightarrow>
          (case put_to_plasma renv ids i res store of
             (Inl err, store') \<Rightarrow> (Inl (Py4JJavaError err), store')
           | (Inr id_ip, store') \<Rightarrow>
               (case run_tasks renv ids (Suc i) ps store' of
                  (Inl err, store'') \<Rightarrow> (Inl err, store'')
                | (Inr rest, store'') \<Rightarrow> (Inr (id_ip # rest), store''))))"

definition object_ids_for :: "ray_env \<Rightarrow> SparkXShards \<Rightarrow> string list" where
  "object_ids_for renv s = map (from_random renv) [0..<getNumPartitions (rdd s)]"

definition to_ray ::
  "ray_env \<Rightarrow> env \<Rightarrow> SparkXShards \<Rightarrow> plasma \<Rightarrow>
     RayXShards outcome \<times> SparkXShards \<times> plasma \<times> string list" where
  "to_ray renv e s store =
     (let object_ids = object_ids_for renv s in
      case run_tasks renv object_ids 0 (rdd s) store of
        (Inl err, store') \<Rightarrow> (Inl err, s, store', [])
      | (Inr object_id_node_ips, store') \<Rightarrow>
          (case uncache e s of
             (Inl err, s', out) \<Rightarrow> (Inl err, s', store', out)
           | (Inr _, s', out) \<Rightarrow>
               (Inr \<lparr>ray_rdd =
                       map (\<lambda>id_ip. \<lparr>object_id = fst id_ip, node_ip = snd id_ip,
                                     object_store_address = store_address renv\<rparr>)
                         (sort_key snd object_id_node_ips)\<rparr>,
                s', store', out)))"

text \<open>
  \<^verbatim>\<open>RayXShards.collect\<close> and \<^verbatim>\<open>RayXShards.num_partitions\<close> call the method of the same
  name on \<^verbatim>\<open>self.ray_rdd\<close>. What \<^verbatim>\<open>to_ray\<close> passes to the constructor is the Python
  list \<^verbatim>\<open>partitions\<close>, and a list has neither method.
\<close>

definition RayXShards_collect :: "RayXShards \<Rightarrow> pyobj list outcome" where
  "RayXShards_collect x =
     Inl (AttributeError ([CHR 0x27] @ ''list'' @ [CHR 0x27] @ '' object has no attribute ''
                          @ [CHR 0x27] @ ''collect'' @ [CHR 0x27]))"

definition RayXShards_num_partitions :: "RayXShards \<Rightarrow> nat outcome" where
  "RayXShards_num_partitions x =
     Inl (AttributeError ([CHR 0x27] @ ''list'' @ [CHR 0x27] @ '' object has no attribute ''
                          @ [CHR 0x27] @ ''num_partitions'' @ [CHR 0x27]))"
section \<open>XShards.partition\<close>





text \<open>
  \<^verbatim>\<open>np.array_split(ary, Nsections)\<close> along axis 0. Its section sizes are \<^verbatim>\<open>Neach_section + 1\<close>
  for the first \<^verbatim>\<open>extras\<close> sections and \<^verbatim>\<open>Neach_section\<close> for the others, where
  \<^verbatim>\<open>Neach_section, extras = divmod(Ntotal, Nsections)\<close>; the division points are their
  running sums, and section \<open>i\<close> is \<^verbatim>\<open>ary[div_points[i]:div_points[i + 1]]\<close>.
\<close>

definition cumsum :: "nat list \<Rightarrow> nat list" where
  "cumsum xs = map (\<lambda>i. sum_list (take (Suc i) xs)) [0..<length xs]"

fun nd_slice :: "nat \<Rightarrow> nat \<Rightarrow> pyobj \<Rightarrow> pyobj" where
  "nd_slice st en (NdArray (k # rest) dt buf) =
     NdArray ((min en k - min st k) # rest) dt
       (take ((min en k - min st k) * prod_list rest) (drop (min st k * prod_list rest) buf))"
| "nd_slice st en x = x"

definition array_split :: "pyobj \<Rightarrow> nat \<Rightarrow> pyobj list outcome" where
  "array_split ary Nsections =
     (case ary of
        NdArray shp dt buf \<Rightarrow>
          (case shp of
             [] \<Rightarrow> Inl (IndexError ''tuple index out of range'')
           | Ntotal # rest \<Rightarrow>
               if Nsections = 0
               then Inl (ValueError ''number sections must be larger than 0.'')
               else
                 (let Neach_section = Ntotal div Nsections;
                      extras = Ntotal mod Nsections;
                      section_sizes = [0] @ replicate extras (Neach_section + 1)
                                        @ replicate (Nsections - extras) Neach_section;
                      div_points = cumsum section_sizes
                  in Inr (map (\<lambda>i. nd_slice (div_points ! i) (div_points ! (i + 1)) ary)
                            [0..<Nsections])))
      | _ \<Rightarrow> Inl (Unmodelled ''np.array_split of an object that is not an array''))"









section \<open>Conditions used in the statements\<close>

text \<open>The engine's release either succeeds or fails with a \<^verbatim>\<open>Py4JError\<close>.\<close>

definition release_ok :: "env \<Rightarrow> bool" where
  "release_ok e = (case unpersist_raises e of None \<Rightarrow> True | Some err \<Rightarrow> is_Py4JError err)"

text \<open>
  Two RDDs are misaligned when some pair of same-index partitions, both computed
  without failure, hold different numbers of elements.
\<close>

definition misaligned :: "'a rdd \<Rightarrow> 'b rdd \<Rightarrow> bool" where
  "misaligned a b =
     list_ex
       (\<lambda>(p, q). case p of
            Inl _ \<Rightarrow> False
          | Inr xs \<Rightarrow> (case q of Inl _ \<Rightarrow> False | Inr ys \<Rightarrow> length xs \<noteq> length ys))
       (zip a b)"

text \<open>The items of a list or a tuple (no items for anything else).\<close>

fun seq_items :: "pyobj \<Rightarrow> pyobj list" where
  "seq_items (PyList xs) = xs"
| "seq_items (PyTuple xs) = xs"
| "seq_items _ = []"

text \<open>The groups of parent partitions that \<^verbatim>\<open>coalesce(n)\<close> merges, for partitions that compute.\<close>

definition coalesce_groups :: "nat \<Rightarrow> 'a list list \<Rightarrow> 'a list list list" where
  "coalesce_groups n ps =
     (if length ps \<le> n then map (\<lambda>p. [p]) ps
      else map (\<lambda>i. take ((i + 1) * length ps div n - i * length ps div n)
                      (drop (i * length ps div n) ps))
             [0..<n])"

text \<open>
  The cached type information of a collection is right when each entry of
  \<^verbatim>\<open>self.type\<close> that is present is what its getter would compute.
\<close>

definition type_cache_ok :: "SparkXShards \<Rightarrow> bool" where
  "type_cache_ok s =
     ((case type_class_name s of
         None \<Rightarrow> True
       | Some c \<Rightarrow> rdd_first (rdd_map (\<lambda>x. Inr (get_class_name x)) (rdd s)) = Inr c)
      \<and> (case type_schema s of
            None \<Rightarrow> True
          | Some sc \<Rightarrow> rdd_first (rdd_map columns_dtypes (rdd s)) = Inr sc))"

text \<open>
  Collections of one element kind, given by their partitions. A table collection
  holds tables of one schema with at least one column, whose rows fit the columns. A
  list collection holds lists, an array collection arrays of rank at least 1 with
  one dtype and one shape behind the leading axis, whose buffers have the size of
  their shape; in both every partition holds at least one shard.
\<close>

definition table_shard :: "string list \<Rightarrow> string list \<Rightarrow> pyobj \<Rightarrow> bool" where
  "table_shard cols dts x =
     (case x of
        DataFrame c t rws \<Rightarrow> c = cols \<and> t = dts \<and> list_all (\<lambda>row. length row = length cols) rws
      | _ \<Rightarrow> False)"

definition table_collection :: "string list \<Rightarrow> string list \<Rightarrow> pyobj list list \<Rightarrow> bool" where
  "table_collection cols dts ps =
     (cols \<noteq> [] \<and> concat ps \<noteq> [] \<and> list_all (table_shard cols dts) (concat ps))"

fun is_PyList :: "pyobj \<Rightarrow> bool" where
  "is_PyList (PyList _) = True"
| "is_PyList _ = False"

definition list_collection :: "pyobj list list \<Rightarrow> bool" where
  "list_collection ps =
     (concat ps \<noteq> [] \<and> list_all is_PyList (concat ps) \<and> list_all (\<lambda>p. p \<noteq> []) ps)"

definition array_shard :: "nat list \<Rightarrow> string \<Rightarrow> pyobj \<Rightarrow> bool" where
  "array_shard rest dt x =
     (case x of
        NdArray shp t buf \<Rightarrow>
          (case shp of
             [] \<Rightarrow> False
           | k # r \<Rightarrow> r = rest \<and> t = dt \<and> length buf = k * prod_list rest)
      | _ \<Rightarrow> False)"

definition array_collection :: "nat list \<Rightarrow> string \<Rightarrow> pyobj list list \<Rightarrow> bool" where
  "array_collection rest dt ps =
     (concat ps \<noteq> [] \<and> list_all (array_shard rest dt) (concat ps) \<and> list_all (\<lambda>p. p \<noteq> []) ps)"

text \<open>
  A well-formed collection: its kind is that of its first shard, as \<^verbatim>\<open>repartition\<close>
  reads it. Any other first shard (a tuple, a dictionary, a number, an array of rank
  0) puts no condition on the rest.
\<close>

definition well_formed :: "pyobj list list \<Rightarrow> bool" where
  "well_formed ps =
     (case concat ps of
        [] \<Rightarrow> False
      | x # _ \<Rightarrow>
          (case x of
             DataFrame cols dts _ \<Rightarrow> table_collection cols dts ps
           | PyList _ \<Rightarrow> list_collection ps
           | NdArray shp dt _ \<Rightarrow>
               (case shp of [] \<Rightarrow> True | _ # rest \<Rightarrow> array_collection rest dt ps)
           | _ \<Rightarrow> True))"

text \<open>
  The elements a shard holds: the rows of a table, the items of a list, the
  sub-arrays along the leading axis of an array of rank at least 1; any other shard
  is one element itself.
\<close>

fun shard_elements :: "pyobj \<Rightarrow> pyobj list" where
  "shard_elements (DataFrame cols dts rws) = map (\<lambda>row. PyList (map PyInt row)) rws"
| "shard_elements (PyList xs) = xs"
| "shard_elements (NdArray shp dt buf) =
     (case shp of
        [] \<Rightarrow> [NdArray shp dt buf]
      | k # rest \<Rightarrow>
          map (\<lambda>i. NdArray rest dt (take (prod_list rest) (drop (i * prod_list rest) buf)))
            [0..<k])"
| "shard_elements x = [x]"

text \<open>The rows held by the tables of partition \<open>i\<close> of a collection.\<close>

definition partition_rows :: "SparkXShards \<Rightarrow> nat \<Rightarrow> int list list" where
  "partition_rows t i = (case rdd t ! i of Inl _ \<Rightarrow> [] | Inr xs \<Rightarrow> concat (map df_rows xs))"

text \<open>
  The bucket of a row when a table collection is spread over \<open>n\<close> partitions, the
  rows of a collection of tables, and what \<^verbatim>\<open>merge_rows\<close> leaves in a partition for
  the rows its bucket received.
\<close>

definition bucket_of :: "shuffle \<Rightarrow> nat \<Rightarrow> int list \<Rightarrow> nat" where
  "bucket_of sh n row = nat (portable_hash sh (hd row) mod int n)"

definition all_rows :: "pyobj list list \<Rightarrow> int list list" where
  "all_rows ps = concat (map df_rows (concat ps))"

definition table_bucket :: "string list \<Rightarrow> string list \<Rightarrow> int list list \<Rightarrow> pyobj list" where
  "table_bucket cols dts rws = (if rws = [] then [] else [DataFrame cols dts rws])"

text \<open>The \<open>k\<close> consecutive pieces of length \<open>m\<close> at the front of a buffer.\<close>

definition chunks :: "nat \<Rightarrow> nat \<Rightarrow> 'a list \<Rightarrow> 'a list list" where
  "chunks m k buf = map (\<lambda>i. take m (drop (i * m) buf)) [0..<k]"




text \<open>The sections \<^verbatim>\<open>np.array_split\<close> returns (none when it raises).\<close>

definition sections :: "nat \<Rightarrow> pyobj \<Rightarrow> pyobj list" where
  "sections n x = (case array_split x n of Inl _ \<Rightarrow> [] | Inr ps \<Rightarrow> ps)"

section \<open>Basic facts about the substrate\<close>

lemma first_error_map_Inr: "first_error (map Inr xs) = Inr xs"
  by (induction xs) simp_all

lemma first_error_Inr_iff: "first_error r = Inr ps \<longleftrightarrow> r = map Inr ps"
proof (induction r arbitrary: ps)
  case Nil
  then show ?case by auto
next
  case (Cons p r)
  show ?case
  proof (cases p)
    case (Inl e)
    then show ?thesis by auto
  next
    case (Inr v)
    show ?thesis
    proof (cases "first_error r")
      case (Inl e)
      with Cons Inr show ?thesis by (cases ps) auto
    next
      case r: (Inr vs)
      with Cons [of vs] have "r = map Inr vs" by simp
      with Inr r show ?thesis by (cases ps) (auto simp: first_error_map_Inr)
    qed
  qed
qed

lemma first_error_total:
  "(\<And>x. x \<in> set xs \<Longrightarrow> f x = Inr (g x)) \<Longrightarrow> first_error (map f xs) = Inr (map g xs)"
  by (induction xs) simp_all

lemma first_error_Inl:
  "Inl e \<in> set r \<Longrightarrow> \<exists>e'. first_error r = Inl e'"
proof (induction r)
  case Nil
  then show ?case by simp
next
  case (Cons p r)
  then show ?case
    by (cases p; cases "first_error r") auto
qed

lemma mapPartitions_healthy: "mapPartitions f (map Inr ps) = map f ps"
  by (simp add: mapPartitions_def)

lemma rdd_map_healthy:
  assumes "\<And>x. x \<in> set (concat ps) \<Longrightarrow> f x = Inr (g x)"
  shows "rdd_map f (map Inr ps) = map Inr (map (map g) ps)"
proof -
  have "first_error (map f p) = Inr (map g p)" if "p \<in> set ps" for p
    using that assms by (intro first_error_total) auto
  then show ?thesis
    by (simp add: rdd_map_def mapPartitions_healthy)
qed

lemma rdd_collect_healthy: "rdd_collect (map Inr ps) = Inr (concat ps)"
  by (simp add: rdd_collect_def first_error_map_Inr)

lemma rdd_count_healthy: "rdd_count (map Inr ps) = Inr (length (concat ps))"
  by (simp add: rdd_count_def first_error_map_Inr)

lemma init_healthy:
  "SparkXShards_init e (map Inr ps) False =
     Inr \<lparr>rdd = map Inr ps, rdd_is_cached = True, user_cached = False,
          eager = eager_mode e, type_class_name = None, type_schema = None\<rparr>"
  by (simp add: SparkXShards_init_def compute_def rdd_count_healthy Let_def)

lemma init_lazy:
  "\<not> eager_mode e \<Longrightarrow>
   SparkXShards_init e r False =
     Inr \<lparr>rdd = r, rdd_is_cached = True, user_cached = False,
          eager = False, type_class_name = None, type_schema = None\<rparr>"
  by (simp add: SparkXShards_init_def Let_def)

lemma init_eager_failing:
  "eager_mode e \<Longrightarrow> Inl err \<in> set r \<Longrightarrow> \<exists>err'. SparkXShards_init e r False = Inl err'"
  using first_error_Inl [of err r]
  by (auto simp: SparkXShards_init_def compute_def rdd_count_def Let_def)

lemma init_cache_state:
  "SparkXShards_init e r False = Inr t \<Longrightarrow> cache_state_of t = SystemCached \<and> rdd t = r"
  by (auto simp: SparkXShards_init_def cache_state_of_def Let_def split: if_splits sum.splits)

lemma private_uncache_frame:
  "private_uncache e s = (res, s', out) \<Longrightarrow>
     rdd s' = rdd s \<and> eager s' = eager s \<and> type_class_name s' = type_class_name s
     \<and> type_schema s' = type_schema s \<and> (user_cached s \<longrightarrow> s' = s)
     \<and> (\<not> user_cached s \<longrightarrow> s' = s\<lparr>rdd_is_cached := False\<rparr>)"
  by (auto simp: private_uncache_def uncache_def is_cached_def Let_def
           split: if_splits option.splits)

lemma private_uncache_ok:
  "release_ok e \<Longrightarrow> \<exists>s' out. private_uncache e s = (Inr (), s', out)"
  by (auto simp: release_ok_def private_uncache_def uncache_def Let_def split: option.splits)

lemma count_list_eq_length: "count_list xs a = length xs \<longleftrightarrow> (\<forall>x\<in>set xs. x = a)"
proof (induction xs)
  case Nil
  then show ?case by simp
next
  case (Cons x xs)
  have "count_list xs a \<le> length xs" by (rule count_le_length)
  with Cons show ?case by auto
qed

section \<open>Facts about zipping\<close>

lemma rdd_zip_misaligned:
  assumes "length a = length b" "misaligned a b"
  shows "\<exists>r err. rdd_zip a b = Inr r \<and> Inl err \<in> set r"
proof -
  from assms(2) obtain p q where pq: "(p, q) \<in> set (zip a b)"
    and bad: "case p of Inl _ \<Rightarrow> False
              | Inr xs \<Rightarrow> (case q of Inl _ \<Rightarrow> False | Inr ys \<Rightarrow> length xs \<noteq> length ys)"
    by (auto simp: misaligned_def list_ex_iff)
  from bad obtain xs ys where p: "p = Inr xs" and q: "q = Inr ys" and ne: "length xs \<noteq> length ys"
    by (cases p; cases q) auto
  have "zip_partition p q \<in> set (map2 zip_partition a b)"
    using pq by force
  moreover have "zip_partition p q = Inl (SparkException
                           ''Can only zip RDDs with same number of elements in each partition'')"
    using p q ne by (simp add: zip_partition_def)
  ultimately have "\<exists>err. Inl err \<in> set (map2 zip_partition a b)"
    by metis
  then show ?thesis
    using assms(1) by (simp add: rdd_zip_def getNumPartitions_def)
qed

lemma rdd_collect_failing: "Inl err \<in> set r \<Longrightarrow> \<exists>err'. rdd_collect r = Inl (Py4JJavaError err')"
  using first_error_Inl [of err r] by (auto simp: rdd_collect_def)


section \<open>Facts about splitting\<close>

lemma get_data_seq:
  "1 < split_length x \<Longrightarrow> i < split_length x \<Longrightarrow> get_data i x = Inr (seq_items x ! i)"
  by (cases x) simp_all

lemma split_lengths_collect:
  "rdd_collect (rdd_map (\<lambda>data. Inr (split_length data)) (map Inr ps))
     = Inr (map split_length (concat ps))"
proof -
  have "rdd_map (\<lambda>data. Inr (split_length data)) (map Inr ps)
          = map Inr (map (map split_length) ps)"
    by (rule rdd_map_healthy) simp
  then show ?thesis
    by (simp only: rdd_collect_healthy map_concat)
qed


section \<open>Facts about shuffles and slices\<close>

lemma rdd_first_healthy:
  "rdd_first (map Inr qs) =
     (case concat qs of [] \<Rightarrow> Inl (ValueError ''RDD is empty'') | x # _ \<Rightarrow> Inr x)"
proof (induction qs)
  case Nil
  then show ?case by simp
next
  case (Cons q qs)
  then show ?case by (cases q) simp_all
qed

lemma flatMap_healthy:
  assumes "\<And>x. x \<in> set (concat ps) \<Longrightarrow> f x = Inr (g x)"
  shows "flatMap f (map Inr ps) = map Inr (map (\<lambda>p. concat (map g p)) ps)"
proof -
  have "first_error (map f p) = Inr (map g p)" if "p \<in> set ps" for p
    using that assms by (intro first_error_total) auto
  then show ?thesis
    by (simp add: flatMap_def mapPartitions_healthy)
qed

lemma partitionBy_healthy:
  "partitionBy n h (map Inr ps) =
     map Inr (map (\<lambda>i. filter (\<lambda>kv. nat (h (fst kv) mod int n) = i) (concat ps)) [0..<n])"
  by (simp add: partitionBy_def first_error_map_Inr)

lemma rdd_repartition_healthy:
  "0 < n \<Longrightarrow> rdd_repartition target n (map Inr ps) = Inr (map Inr (distribute target n (concat ps)))"
  by (simp add: rdd_repartition_def first_error_map_Inr)

text \<open>Buckets chosen by a function into \<open>{0..<n}\<close> split a list without loss.\<close>

lemma mset_buckets_below:
  "(\<Sum>i\<leftarrow>[0..<n]. mset (filter (\<lambda>x. f x = i) xs)) = mset (filter (\<lambda>x. f x < n) xs)"
proof (induction n)
  case 0
  then show ?case by simp
next
  case (Suc n)
  have "mset (filter (\<lambda>x. f x < n) xs) + mset (filter (\<lambda>x. f x = n) xs)
          = mset (filter (\<lambda>x. f x < Suc n) xs)"
    by (induction xs) auto
  with Suc show ?case by simp
qed

lemma mset_buckets:
  assumes "\<And>x. x \<in> set xs \<Longrightarrow> f x < n"
  shows "mset (concat (map (\<lambda>i. filter (\<lambda>x. f x = i) xs) [0..<n])) = mset xs"
proof -
  have "filter (\<lambda>x. f x < n) xs = xs"
    using assms by (simp add: filter_id_conv)
  then show ?thesis
    by (simp add: mset_concat comp_def mset_buckets_below del: mset_filter)
qed

lemma length_distribute: "length (distribute target n xs) = n"
  by (simp add: distribute_def)

lemma mset_distribute:
  assumes "0 < n"
  shows "mset (concat (distribute target n xs)) = mset xs"
proof -
  let ?exs = "enumerate 0 xs"
  let ?bs = "concat (map (\<lambda>i. filter (\<lambda>jx. target (fst jx) mod n = i) ?exs) [0..<n])"
  have eq: "concat (distribute target n xs) = map snd ?bs"
    by (simp add: distribute_def map_concat comp_def)
  have bs: "mset ?bs = mset ?exs"
    using assms by (intro mset_buckets) simp
  have "mset (map snd ?bs) = image_mset snd (mset ?bs)"
    by (rule mset_map)
  also have "\<dots> = image_mset snd (mset ?exs)"
    by (simp only: bs)
  also have "\<dots> = mset (map snd ?exs)"
    by (rule mset_map [symmetric])
  also have "map snd ?exs = xs"
    by simp
  finally show ?thesis
    by (simp only: eq)
qed

text \<open>Consecutive slices of a list, cut at increasing bounds, concatenate to a prefix.\<close>

lemma concat_slices:
  assumes "\<And>i. i < n \<Longrightarrow> b i \<le> b (Suc i)"
  shows "concat (map (\<lambda>i. take (b (Suc i) - b i) (drop (b i) xs)) [0..<n])
           = take (b n - b 0) (drop (b 0) xs)"
  using assms
proof (induction n)
  case 0
  then show ?case by simp
next
  case (Suc n)
  have mono: "b 0 \<le> b n"
    using Suc.prems by (induction n) (auto intro: le_trans less_SucI)
  have step: "b n \<le> b (Suc n)" using Suc.prems by simp
  have "take (b (Suc n) - b 0) (drop (b 0) xs)
          = take ((b n - b 0) + (b (Suc n) - b n)) (drop (b 0) xs)"
    using mono step by simp
  also have "\<dots> = take (b n - b 0) (drop (b 0) xs)
                  @ take (b (Suc n) - b n) (drop (b n - b 0) (drop (b 0) xs))"
    by (rule take_add)
  also have "drop (b n - b 0) (drop (b 0) xs) = drop (b n) xs"
    using mono by simp
  finally show ?case
    using Suc by simp
qed


section \<open>Facts about coalescing\<close>

lemma rdd_coalesce_healthy:
  assumes "0 < n"
  shows "rdd_coalesce n (map Inr ps) = Inr (map Inr (map concat (coalesce_groups n ps)))"
proof (cases "length ps \<le> n")
  case True
  have "map concat (map (\<lambda>p. [p]) ps) = ps"
    by (induction ps) simp_all
  with True assms show ?thesis
    by (simp add: rdd_coalesce_def coalesce_groups_def del: map_map)
next
  case False
  have fe: "first_error (take k (drop j (map Inr ps))) = Inr (take k (drop j ps))" for k j
    by (simp only: take_map drop_map first_error_map_Inr)
  from False assms show ?thesis
    by (simp add: rdd_coalesce_def coalesce_groups_def fe)
qed

lemma concat_coalesce_groups:
  assumes "0 < n"
  shows "concat (coalesce_groups n ps) = ps"
proof (cases "length ps \<le> n")
  case True
  then show ?thesis by (simp add: coalesce_groups_def)
next
  case False
  let ?b = "\<lambda>i. i * length ps div n"
  have "concat (map (\<lambda>i. take (?b (Suc i) - ?b i) (drop (?b i) ps)) [0..<n])
          = take (?b n - ?b 0) (drop (?b 0) ps)"
    by (rule concat_slices) (simp add: div_le_mono)
  with False assms show ?thesis
    by (simp add: coalesce_groups_def)
qed

lemma length_coalesce_groups:
  "n \<le> length ps \<Longrightarrow> length (coalesce_groups n ps) = n"
  by (simp add: coalesce_groups_def)

lemma coalesce_groups_nonempty:
  assumes "0 < n" "n \<le> length ps" "g \<in> set (coalesce_groups n ps)"
  shows "g \<noteq> []"
proof (cases "length ps \<le> n")
  case True
  with assms show ?thesis by (auto simp: coalesce_groups_def)
next
  case False
  let ?L = "length ps"
  from False assms obtain i where i: "i < n"
    and g: "g = take ((i + 1) * ?L div n - i * ?L div n) (drop (i * ?L div n) ps)"
    by (auto simp: coalesce_groups_def)
  have "i * ?L + n \<le> (i + 1) * ?L"
    using assms(2) by (simp add: algebra_simps)
  then have "(i * ?L + n) div n \<le> (i + 1) * ?L div n"
    by (rule div_le_mono)
  moreover have "(i * ?L + n) div n = i * ?L div n + 1"
    using assms(1) div_add_self2 [of n "i * ?L"] by simp
  ultimately have gap: "i * ?L div n < (i + 1) * ?L div n"
    by linarith
  have "i + 1 \<le> n"
    using i by simp
  then have "(i + 1) * ?L \<le> n * ?L"
    by (rule mult_le_mono1)
  then have "(i + 1) * ?L div n \<le> n * ?L div n"
    by (rule div_le_mono)
  then have top: "(i + 1) * ?L div n \<le> ?L"
    using assms(1) by simp
  from gap top have "i * ?L div n < ?L" by simp
  with gap g show ?thesis by simp
qed

lemma coalesce_groups_subset:
  assumes "0 < n" "g \<in> set (coalesce_groups n ps)" "p \<in> set g"
  shows "p \<in> set ps"
proof -
  from assms(2,3) have "p \<in> set (concat (coalesce_groups n ps))" by auto
  with assms(1) show ?thesis by (simp add: concat_coalesce_groups)
qed


section \<open>Facts about repartition\<close>

lemma repartition_run:
  assumes cn: "private_get_class_name s = (Inr c, s1)"
      and rr: "repartitioned_rdd sh n c s1 = (Inr (map Inr qs), s2)"
      and rel: "release_ok e"
  shows "\<exists>s' out. repartition e sh n s =
           (Inr \<lparr>rdd = map Inr qs, rdd_is_cached = True, user_cached = False,
                 eager = eager_mode e, type_class_name = None, type_schema = None\<rparr>, s', out)"
proof -
  from private_uncache_ok [OF rel] obtain s' out where "private_uncache e s2 = (Inr (), s', out)"
    by blast
  with cn rr show ?thesis
    by (simp add: repartition_def init_healthy del: map_map)
qed

lemma rdd_first_map_healthy:
  assumes "\<And>y. y \<in> set (concat ps) \<Longrightarrow> f y = Inr (g y)" and "concat ps = x # xs"
  shows "rdd_first (rdd_map f (map Inr ps)) = Inr (g x)"
proof -
  have "rdd_map f (map Inr ps) = map Inr (map (map g) ps)"
    by (rule rdd_map_healthy) (rule assms(1))
  moreover have "concat (map (map g) ps) = g x # map g xs"
    using assms(2) by (simp add: map_concat [symmetric])
  ultimately show ?thesis
    by (simp only: rdd_first_healthy list.case)
qed

lemma class_name_healthy:
  assumes "rdd s = map Inr ps" "concat ps = x # xs" "type_cache_ok s"
  shows "\<exists>s1. private_get_class_name s = (Inr (get_class_name x), s1) \<and> rdd s1 = rdd s
           \<and> type_cache_ok s1 \<and> type_class_name s1 = Some (get_class_name x)"
proof -
  have first: "rdd_first (rdd_map (\<lambda>x. Inr (get_class_name x)) (rdd s)) = Inr (get_class_name x)"
    unfolding assms(1) by (rule rdd_first_map_healthy [OF _ assms(2)]) simp
  show ?thesis
  proof (cases "type_class_name s")
    case None
    with first assms(3) show ?thesis
      by (simp add: private_get_class_name_def type_cache_ok_def split: option.splits)
  next
    case (Some c)
    with first assms(3) have "c = get_class_name x"
      by (simp add: type_cache_ok_def)
    with Some assms(3) show ?thesis
      by (simp add: private_get_class_name_def)
  qed
qed

lemma table_shard_cases:
  assumes "table_shard cols dts x"
  obtains rws where "x = DataFrame cols dts rws" "\<forall>row\<in>set rws. length row = length cols"
  using assms by (cases x) (auto simp: table_shard_def list_all_iff)

lemma table_collectionD:
  "table_collection cols dts ps \<Longrightarrow> y \<in> set (concat ps) \<Longrightarrow> table_shard cols dts y"
  by (auto simp: table_collection_def list_all_iff)

lemma schema_healthy:
  assumes h: "rdd s = map Inr ps" and t: "table_collection cols dts ps" and ok: "type_cache_ok s"
  shows "\<exists>s2. private_get_schema s = (Inr (Some (cols, dts)), s2) \<and> rdd s2 = rdd s"
proof -
  from t obtain x xs where xs: "concat ps = x # xs"
    by (cases "concat ps") (auto simp: table_collection_def)
  have all: "columns_dtypes y = Inr (cols, dts)" if "y \<in> set (concat ps)" for y
  proof -
    from t that have "table_shard cols dts y"
      by (rule table_collectionD)
    then show ?thesis by (auto elim: table_shard_cases)
  qed
  have first: "rdd_first (rdd_map columns_dtypes (map Inr ps)) = Inr (cols, dts)"
    by (rule rdd_first_map_healthy [OF _ xs, where g = "\<lambda>_. (cols, dts)"]) (rule all)
  have x: "get_class_name x = ''pandas.core.frame.DataFrame''"
  proof -
    from xs have "x \<in> set (concat ps)" by simp
    with t have "table_shard cols dts x"
      by (rule table_collectionD)
    then show ?thesis by (auto elim: table_shard_cases)
  qed
  show ?thesis
  proof (cases "type_schema s")
    case (Some sc)
    with first ok h have "sc = (cols, dts)"
      by (simp add: type_cache_ok_def)
    with Some show ?thesis
      by (simp add: private_get_schema_def)
  next
    case None
    from class_name_healthy [OF h xs ok] obtain s1
      where s1: "private_get_class_name s = (Inr (get_class_name x), s1)" "rdd s1 = rdd s"
      by blast
    with None first h x show ?thesis
      by (simp add: private_get_schema_def)
  qed
qed


section \<open>Spreading a table collection over more partitions\<close>

lemma concat_map_concat_map: "concat (map (\<lambda>p. concat (map f p)) ps) = concat (map f (concat ps))"
  by (induction ps) simp_all

lemma concat_map_map: "concat (map (\<lambda>x. map k (g x)) xs) = map k (concat (map g xs))"
  by (induction xs) simp_all

lemma map_snd_filter_keyed:
  "map snd (filter (\<lambda>kv. Q (fst kv)) (map (\<lambda>row. (k row, row)) rws)) = filter (\<lambda>row. Q (k row)) rws"
  by (induction rws) simp_all

lemma keyed_rows_table:
  assumes "table_shard cols dts x" "cols \<noteq> []"
  shows "keyed_rows x = Inr (map (\<lambda>row. (hd row, row)) (df_rows x))"
proof -
  from assms(1) obtain rws where x: "x = DataFrame cols dts rws"
    and fit: "\<forall>row\<in>set rws. length row = length cols"
    by (rule table_shard_cases)
  have "(case row of [] \<Rightarrow> Inl (IndexError ''index 0 is out of bounds for axis 0 with size 0'')
         | k # _ \<Rightarrow> Inr (k, row)) = Inr (hd row, row)" if "row \<in> set rws" for row
  proof -
    from that fit have "length row = length cols" by blast
    with assms(2) have "row \<noteq> []" by auto
    then show ?thesis by (cases row) simp_all
  qed
  then have "first_error
       (map (\<lambda>row. case row of
                 [] \<Rightarrow> Inl (IndexError ''index 0 is out of bounds for axis 0 with size 0'')
               | k # _ \<Rightarrow> Inr (k, row))
          rws) = Inr (map (\<lambda>row. (hd row, row)) rws)"
    by (rule first_error_total)
  with x show ?thesis by simp
qed

lemma all_rows_fit:
  assumes "table_collection cols dts ps" "row \<in> set (all_rows ps)"
  shows "length row = length cols"
proof -
  from assms(2) obtain y where y: "y \<in> set (concat ps)" "row \<in> set (df_rows y)"
    by (auto simp: all_rows_def)
  from table_collectionD [OF assms(1) y(1)] y(2) show ?thesis
    by (auto elim!: table_shard_cases)
qed

lemma merge_rows_bucket:
  assumes "\<forall>kv\<in>set b. length (snd kv) = length cols"
  shows "merge_rows (Some (cols, dts)) b = Inr (table_bucket cols dts (map snd b))"
  using assms
  by (auto simp: merge_rows_def pd_DataFrame_def table_bucket_def list_all_iff Let_def)

lemma repartition_table_increase:
  assumes h: "rdd s = map Inr ps" and t: "table_collection cols dts ps" and ok: "type_cache_ok s"
      and n: "length ps < n" and rel: "release_ok e"
  shows "\<exists>s' out. repartition e sh n s =
           (Inr \<lparr>rdd = map Inr (map (\<lambda>i. table_bucket cols dts
                                     (filter (\<lambda>row. bucket_of sh n row = i) (all_rows ps)))
                               [0..<n]),
                 rdd_is_cached = True, user_cached = False,
                 eager = eager_mode e, type_class_name = None, type_schema = None\<rparr>, s', out)"
proof -
  let ?K = "\<lambda>row. (hd row, row)"
  let ?kr = "\<lambda>x. map ?K (df_rows x)"
  let ?Q = "\<lambda>i k. nat (portable_hash sh k mod int n) = i"
  from t obtain x xs where xs: "concat ps = x # xs"
    by (cases "concat ps") (auto simp: table_collection_def)
  from t have cols: "cols \<noteq> []" by (simp add: table_collection_def)
  have "x \<in> set (concat ps)" using xs by simp
  with t have "table_shard cols dts x" by (rule table_collectionD)
  then have x: "get_class_name x = ''pandas.core.frame.DataFrame''"
    by (auto elim: table_shard_cases)
  from class_name_healthy [OF h xs ok] x obtain s1
    where s1: "private_get_class_name s = (Inr ''pandas.core.frame.DataFrame'', s1)"
      "rdd s1 = rdd s" "type_cache_ok s1"
    by auto
  from s1(2) h have h1: "rdd s1 = map Inr ps" by simp
  from schema_healthy [OF h1 t s1(3)] obtain s2
    where s2: "private_get_schema s1 = (Inr (Some (cols, dts)), s2)"
    by blast
  have fm: "flatMap keyed_rows (map Inr ps) = map Inr (map (\<lambda>p. concat (map ?kr p)) ps)"
    by (rule flatMap_healthy) (rule keyed_rows_table [OF table_collectionD [OF t] cols])
  have keyed: "concat (map (\<lambda>p. concat (map ?kr p)) ps) = map ?K (all_rows ps)"
    by (simp only: concat_map_concat_map concat_map_map all_rows_def)
  have bucket: "merge_rows (Some (cols, dts)) (filter (\<lambda>kv. ?Q i (fst kv)) (map ?K (all_rows ps)))
                  = Inr (table_bucket cols dts (filter (\<lambda>row. bucket_of sh n row = i) (all_rows ps)))"
    for i
  proof -
    have "\<forall>kv\<in>set (filter (\<lambda>kv. ?Q i (fst kv)) (map ?K (all_rows ps))). length (snd kv) = length cols"
      using all_rows_fit [OF t] by auto
    then have "merge_rows (Some (cols, dts)) (filter (\<lambda>kv. ?Q i (fst kv)) (map ?K (all_rows ps)))
                 = Inr (table_bucket cols dts
                     (map snd (filter (\<lambda>kv. ?Q i (fst kv)) (map ?K (all_rows ps)))))"
      by (rule merge_rows_bucket)
    then show ?thesis
      by (simp only: map_snd_filter_keyed [where Q = "?Q i" and k = hd] bucket_of_def)
  qed
  let ?M = "merge_rows (Some (cols, dts))"
  let ?KS = "map (\<lambda>p. concat (map ?kr p)) ps"
  let ?B = "\<lambda>i. table_bucket cols dts (filter (\<lambda>row. bucket_of sh n row = i) (all_rows ps))"
  have "mapPartitions ?M (partitionBy n (portable_hash sh) (flatMap keyed_rows (map Inr ps)))
          = mapPartitions ?M (partitionBy n (portable_hash sh) (map Inr ?KS))"
    by (simp only: fm)
  also have "\<dots> = mapPartitions ?M
                      (map Inr (map (\<lambda>i. filter (\<lambda>kv. ?Q i (fst kv)) (concat ?KS)) [0..<n]))"
    by (simp only: partitionBy_healthy)
  also have "\<dots> = map ?M (map (\<lambda>i. filter (\<lambda>kv. ?Q i (fst kv)) (concat ?KS)) [0..<n])"
    by (simp only: mapPartitions_healthy)
  also have "\<dots> = map (\<lambda>i. ?M (filter (\<lambda>kv. ?Q i (fst kv)) (map ?K (all_rows ps)))) [0..<n]"
    by (simp only: map_map comp_def keyed)
  also have "\<dots> = map (\<lambda>i. Inr (?B i)) [0..<n]"
    by (simp only: bucket)
  also have "\<dots> = map Inr (map ?B [0..<n])"
    by (simp only: map_map comp_def)
  finally have r: "mapPartitions ?M
             (partitionBy n (portable_hash sh) (flatMap keyed_rows (map Inr ps)))
           = map Inr (map ?B [0..<n])" .
  have rr: "repartitioned_rdd sh n ''pandas.core.frame.DataFrame'' s1
              = (Inr (map Inr (map (\<lambda>i. table_bucket cols dts
                                     (filter (\<lambda>row. bucket_of sh n row = i) (all_rows ps)))
                               [0..<n])), s2)"
    using n s2 by (simp add: repartitioned_rdd_def getNumPartitions_def h1 r del: map_map)
  from repartition_run [OF s1(1) rr rel] show ?thesis .
qed


section \<open>The elements of a repartitioned collection\<close>

lemma elements_table_bucket:
  "concat (map shard_elements (table_bucket cols dts rws)) = map (\<lambda>row. PyList (map PyInt row)) rws"
  by (simp add: table_bucket_def)

lemma elements_table_shard:
  assumes "\<And>y. y \<in> set xs \<Longrightarrow> table_shard cols dts y"
  shows "concat (map shard_elements xs) = map (\<lambda>row. PyList (map PyInt row)) (concat (map df_rows xs))"
  using assms
proof (induction xs)
  case Nil
  then show ?case by simp
next
  case (Cons x xs)
  from Cons.prems [of x] obtain rws where "x = DataFrame cols dts rws"
    by (auto elim: table_shard_cases)
  with Cons show ?case by simp
qed

lemma table_increase_content:
  assumes t: "table_collection cols dts ps" and pos: "0 < n"
  shows "mset (concat (map shard_elements
            (concat (map (\<lambda>i. table_bucket cols dts
                              (filter (\<lambda>row. bucket_of sh n row = i) (all_rows ps))) [0..<n]))))
         = mset (concat (map shard_elements (concat ps)))"
proof -
  let ?R = "\<lambda>row. PyList (map PyInt row)"
  let ?B = "\<lambda>i. filter (\<lambda>row. bucket_of sh n row = i) (all_rows ps)"
  have "concat (map shard_elements (concat (map (\<lambda>i. table_bucket cols dts (?B i)) [0..<n])))
          = concat (map (\<lambda>i. concat (map shard_elements (table_bucket cols dts (?B i)))) [0..<n])"
    by (simp only: concat_map_concat_map [symmetric] map_map comp_def)
  also have "\<dots> = concat (map (\<lambda>i. map ?R (?B i)) [0..<n])"
    by (simp only: elements_table_bucket)
  also have "\<dots> = map ?R (concat (map ?B [0..<n]))"
    by (simp only: concat_map_map)
  finally have lhs: "concat (map shard_elements (concat (map (\<lambda>i. table_bucket cols dts (?B i)) [0..<n])))
          = map ?R (concat (map ?B [0..<n]))" .
  have below: "bucket_of sh n row < n" for row
    using pos by (simp add: bucket_of_def nat_less_iff)
  have "mset (concat (map ?B [0..<n])) = mset (all_rows ps)"
    by (rule mset_buckets) (rule below)
  then have "mset (map ?R (concat (map ?B [0..<n]))) = mset (map ?R (all_rows ps))"
    by (simp only: mset_map)
  moreover have "concat (map shard_elements (concat ps)) = map ?R (all_rows ps)"
    unfolding all_rows_def by (rule elements_table_shard) (rule table_collectionD [OF t])
  ultimately show ?thesis
    by (simp only: lhs)
qed


lemma first_of_collection:
  assumes "concat ps = x # xs"
  shows "x \<in> set (concat ps)"
  using assms by simp

lemma concat_groups: "concat (map concat gs) = concat (concat gs)"
  by (induction gs) simp_all

text \<open>Table kind, merging partitions.\<close>

lemma pd_concat_tables:
  assumes "g \<noteq> []" and "\<And>y. y \<in> set g \<Longrightarrow> table_shard cols dts y"
  shows "pd_concat g = Inr (DataFrame cols dts (concat (map df_rows g)))"
proof -
  from assms(1) obtain d ds where g: "g = d # ds" by (cases g) auto
  have each: "is_DataFrame y \<and> columns_dtypes y = Inr (cols, dts)" if "y \<in> set g" for y
    using assms(2) [OF that] by (auto elim: table_shard_cases)
  then have "list_all is_DataFrame g" "list_all (\<lambda>y. columns_dtypes y = columns_dtypes d) g"
    "columns_dtypes d = Inr (cols, dts)"
    using g by (auto simp: list_all_iff)
  then show ?thesis
    using g by (simp add: pd_concat_def)
qed

lemma combine_df_tables:
  assumes "\<And>y. y \<in> set g \<Longrightarrow> table_shard cols dts y"
  shows "combine_df g = Inr (if g = [] then [] else [DataFrame cols dts (concat (map df_rows g))])"
proof (cases "g = []")
  case True
  then show ?thesis by (simp add: combine_df_def)
next
  case False
  with pd_concat_tables [OF False assms] show ?thesis
    by (simp add: combine_df_def)
qed

lemma repartition_table_decrease:
  assumes h: "rdd s = map Inr ps" and t: "table_collection cols dts ps" and ok: "type_cache_ok s"
      and n: "n \<le> length ps" and pos: "0 < n" and rel: "release_ok e"
  shows "\<exists>qs s' out. repartition e sh n s =
           (Inr \<lparr>rdd = map Inr qs, rdd_is_cached = True, user_cached = False,
                 eager = eager_mode e, type_class_name = None, type_schema = None\<rparr>, s', out)
          \<and> length qs = n
          \<and> concat (map shard_elements (concat qs)) = concat (map shard_elements (concat ps))"
proof -
  let ?R = "\<lambda>row. PyList (map PyInt row)"
  define C where "C = (\<lambda>g. if g = [] then [] else [DataFrame cols dts (concat (map df_rows g))])"
  define G where "G = map concat (coalesce_groups n ps)"
  define qs where "qs = map C G"
  from t obtain x xs where xs: "concat ps = x # xs"
    by (cases "concat ps") (auto simp: table_collection_def)
  have "table_shard cols dts x"
    by (rule table_collectionD [OF t first_of_collection [OF xs]])
  then have x: "get_class_name x = ''pandas.core.frame.DataFrame''"
    by (auto elim: table_shard_cases)
  from class_name_healthy [OF h xs ok] x obtain s1
    where s1: "private_get_class_name s = (Inr ''pandas.core.frame.DataFrame'', s1)"
      "rdd s1 = rdd s"
    by auto
  from s1(2) h have h1: "rdd s1 = map Inr ps" by simp
  have cat: "concat G = concat ps"
    unfolding G_def by (simp only: concat_groups concat_coalesce_groups [OF pos])
  have inG: "table_shard cols dts y" if "g \<in> set G" "y \<in> set g" for g y
  proof -
    from that have "y \<in> set (concat G)" by auto
    then show ?thesis by (simp only: cat table_collectionD [OF t])
  qed
  have "mapPartitions combine_df (map Inr G) = map combine_df G"
    by (rule mapPartitions_healthy)
  also have "\<dots> = map (\<lambda>g. Inr (C g)) G"
    unfolding C_def by (rule map_cong [OF refl]) (rule combine_df_tables, rule inG)
  also have "\<dots> = map Inr qs"
    unfolding qs_def by simp
  finally have r: "mapPartitions combine_df (map Inr G) = map Inr qs" .
  have co: "rdd_coalesce n (map Inr ps) = Inr (map Inr G)"
    unfolding G_def by (rule rdd_coalesce_healthy [OF pos])
  have rr: "repartitioned_rdd sh n ''pandas.core.frame.DataFrame'' s1 = (Inr (map Inr qs), s1)"
    using n by (simp add: repartitioned_rdd_def getNumPartitions_def h1 co r)
  have len: "length qs = n"
    using n by (simp add: qs_def G_def length_coalesce_groups)
  have el: "concat (map shard_elements (C g)) = map ?R (concat (map df_rows g))" for g
    by (simp add: C_def)
  have "concat (map shard_elements (concat qs))
          = concat (map (\<lambda>g. concat (map shard_elements (C g))) G)"
    unfolding qs_def by (simp only: concat_map_concat_map [symmetric] map_map comp_def)
  also have "\<dots> = concat (map (\<lambda>g. map ?R (concat (map df_rows g))) G)"
    by (simp only: el)
  also have "\<dots> = map ?R (concat (map (\<lambda>g. concat (map df_rows g)) G))"
    by (simp only: concat_map_map)
  also have "\<dots> = map ?R (concat (map df_rows (concat G)))"
    by (simp only: concat_map_concat_map)
  also have "\<dots> = map ?R (concat (map df_rows (concat ps)))"
    by (simp only: cat)
  also have "\<dots> = concat (map shard_elements (concat ps))"
    by (rule elements_table_shard [symmetric]) (rule table_collectionD [OF t])
  finally have content: "concat (map shard_elements (concat qs))
                           = concat (map shard_elements (concat ps))" .
  from repartition_run [OF s1(1) rr rel] len content show ?thesis
    by blast
qed


section \<open>Repartitioning a collection of lists\<close>

lemma list_collectionD:
  "list_collection ps \<Longrightarrow> y \<in> set (concat ps) \<Longrightarrow> is_PyList y"
  by (auto simp: list_collection_def list_all_iff)

lemma is_PyList_cases:
  assumes "is_PyList y"
  obtains items where "y = PyList items"
  using assms by (cases y) auto

lemma py_iter_list: "is_PyList y \<Longrightarrow> py_iter y = Inr (shard_elements y)"
  by (auto elim: is_PyList_cases)

lemma mset_concat_map_cong:
  assumes "mset xs = mset ys"
  shows "mset (concat (map f xs)) = mset (concat (map f ys))"
proof -
  have "mset (concat (map f zs)) = sum_mset (image_mset (\<lambda>z. mset (f z)) (mset zs))" for zs
    by (induction zs) simp_all
  with assms show ?thesis by simp
qed

lemma repartition_list_increase:
  assumes h: "rdd s = map Inr ps" and t: "list_collection ps" and ok: "type_cache_ok s"
      and n: "length ps < n" and rel: "release_ok e"
  shows "\<exists>qs s' out. repartition e sh n s =
           (Inr \<lparr>rdd = map Inr qs, rdd_is_cached = True, user_cached = False,
                 eager = eager_mode e, type_class_name = None, type_schema = None\<rparr>, s', out)
          \<and> length qs = n
          \<and> mset (concat (map shard_elements (concat qs)))
              = mset (concat (map shard_elements (concat ps)))"
proof -
  define items where "items = concat (map shard_elements (concat ps))"
  define B where "B = distribute (shuffle_target sh) n items"
  define qs where "qs = map (\<lambda>b. [PyList b]) B"
  from n have pos: "0 < n" by simp
  from t obtain x xs where xs: "concat ps = x # xs"
    by (cases "concat ps") (auto simp: list_collection_def)
  have "is_PyList x"
    by (rule list_collectionD [OF t first_of_collection [OF xs]])
  then have x: "get_class_name x = ''list''"
    by (auto elim: is_PyList_cases)
  from class_name_healthy [OF h xs ok] x obtain s1
    where s1: "private_get_class_name s = (Inr ''list'', s1)" "rdd s1 = rdd s"
    by auto
  from s1(2) h have h1: "rdd s1 = map Inr ps" by simp
  have fm: "flatMap py_iter (map Inr ps) = map Inr (map (\<lambda>p. concat (map shard_elements p)) ps)"
    by (rule flatMap_healthy) (rule py_iter_list, rule list_collectionD [OF t])
  have it: "concat (map (\<lambda>p. concat (map shard_elements p)) ps) = items"
    unfolding items_def by (rule concat_map_concat_map)
  have rp: "rdd_repartition (shuffle_target sh) n (flatMap py_iter (map Inr ps)) = Inr (map Inr B)"
    unfolding B_def by (simp only: fm rdd_repartition_healthy [OF pos] it)
  have "mapPartitions (\<lambda>iter. Inr [PyList iter]) (map Inr B) = map (\<lambda>iter. Inr [PyList iter]) B"
    by (rule mapPartitions_healthy)
  also have "\<dots> = map Inr qs"
    unfolding qs_def by simp
  finally have r: "mapPartitions (\<lambda>iter. Inr [PyList iter]) (map Inr B) = map Inr qs" .
  have rr: "repartitioned_rdd sh n ''list'' s1 = (Inr (map Inr qs), s1)"
    using n by (simp add: repartitioned_rdd_def getNumPartitions_def h1 rp r)
  have len: "length qs = n"
    by (simp add: qs_def B_def length_distribute)
  have "concat (map shard_elements (concat qs)) = concat B"
    unfolding qs_def by (induction B) simp_all
  moreover have "mset (concat B) = mset items"
    unfolding B_def by (rule mset_distribute [OF pos])
  ultimately have content: "mset (concat (map shard_elements (concat qs)))
                              = mset (concat (map shard_elements (concat ps)))"
    by (simp only: items_def)
  from repartition_run [OF s1(1) rr rel] len content show ?thesis
    by blast
qed

lemma reduce_from_lists:
  assumes "\<And>y. y \<in> set g \<Longrightarrow> is_PyList y"
  shows "reduce_from (PyList acc) g = Inr (PyList (acc @ concat (map shard_elements g)))"
  using assms
proof (induction g arbitrary: acc)
  case Nil
  then show ?case by simp
next
  case (Cons y g)
  from Cons.prems [of y] obtain items where y: "y = PyList items"
    by (auto elim: is_PyList_cases)
  from Cons.IH [of "acc @ items"] Cons.prems y show ?case
    by simp
qed

lemma reduce_add_lists:
  assumes "g \<noteq> []" and "\<And>y. y \<in> set g \<Longrightarrow> is_PyList y"
  shows "one_item (reduce_add g) = Inr [PyList (concat (map shard_elements g))]"
proof -
  from assms(1) obtain y ys where g: "g = y # ys" by (cases g) auto
  from assms(2) [of y] g obtain items where y: "y = PyList items"
    by (auto elim: is_PyList_cases)
  have "reduce_from (PyList items) ys = Inr (PyList (items @ concat (map shard_elements ys)))"
    by (rule reduce_from_lists) (simp add: assms(2) g)
  with g y show ?thesis
    by (simp add: reduce_add_def one_item_def)
qed

lemma repartition_list_decrease:
  assumes h: "rdd s = map Inr ps" and t: "list_collection ps" and ok: "type_cache_ok s"
      and n: "n \<le> length ps" and pos: "0 < n" and rel: "release_ok e"
  shows "\<exists>qs s' out. repartition e sh n s =
           (Inr \<lparr>rdd = map Inr qs, rdd_is_cached = True, user_cached = False,
                 eager = eager_mode e, type_class_name = None, type_schema = None\<rparr>, s', out)
          \<and> length qs = n
          \<and> concat (map shard_elements (concat qs)) = concat (map shard_elements (concat ps))"
proof -
  define C where "C = (\<lambda>g. [PyList (concat (map shard_elements g))])"
  define G where "G = map concat (coalesce_groups n ps)"
  define qs where "qs = map C G"
  from t obtain x xs where xs: "concat ps = x # xs"
    by (cases "concat ps") (auto simp: list_collection_def)
  have "is_PyList x"
    by (rule list_collectionD [OF t first_of_collection [OF xs]])
  then have x: "get_class_name x = ''list''"
    by (auto elim: is_PyList_cases)
  from class_name_healthy [OF h xs ok] x obtain s1
    where s1: "private_get_class_name s = (Inr ''list'', s1)" "rdd s1 = rdd s"
    by auto
  from s1(2) h have h1: "rdd s1 = map Inr ps" by simp
  have cat: "concat G = concat ps"
    unfolding G_def by (simp only: concat_groups concat_coalesce_groups [OF pos])
  have inG: "is_PyList y" if "g \<in> set G" "y \<in> set g" for g y
  proof -
    from that have "y \<in> set (concat G)" by auto
    then show ?thesis by (simp only: cat list_collectionD [OF t])
  qed
  have nonempty: "g \<noteq> []" if "g \<in> set G" for g
  proof -
    from that obtain gr where gr: "gr \<in> set (coalesce_groups n ps)" "g = concat gr"
      by (auto simp: G_def)
    from coalesce_groups_nonempty [OF pos n gr(1)] obtain p where p: "p \<in> set gr"
      by (cases gr) auto
    from coalesce_groups_subset [OF pos gr(1) p] t have "p \<noteq> []"
      by (auto simp: list_collection_def list_all_iff)
    with p gr(2) show ?thesis by auto
  qed
  have "mapPartitions (\<lambda>iter. one_item (reduce_add iter)) (map Inr G)
          = map (\<lambda>iter. one_item (reduce_add iter)) G"
    by (rule mapPartitions_healthy)
  also have "\<dots> = map (\<lambda>g. Inr (C g)) G"
    unfolding C_def by (rule map_cong [OF refl]) (rule reduce_add_lists, rule nonempty, assumption, rule inG)
  also have "\<dots> = map Inr qs"
    unfolding qs_def by simp
  finally have r: "mapPartitions (\<lambda>iter. one_item (reduce_add iter)) (map Inr G) = map Inr qs" .
  have co: "rdd_coalesce n (map Inr ps) = Inr (map Inr G)"
    unfolding G_def by (rule rdd_coalesce_healthy [OF pos])
  have rr: "repartitioned_rdd sh n ''list'' s1 = (Inr (map Inr qs), s1)"
    using n by (simp add: repartitioned_rdd_def getNumPartitions_def h1 co r)
  have len: "length qs = n"
    using n by (simp add: qs_def G_def length_coalesce_groups)
  have "concat (map shard_elements (concat qs)) = concat (map (\<lambda>g. concat (map shard_elements g)) G)"
    unfolding qs_def C_def by (induction G) simp_all
  also have "\<dots> = concat (map shard_elements (concat G))"
    by (rule concat_map_concat_map)
  finally have content: "concat (map shard_elements (concat qs))
                           = concat (map shard_elements (concat ps))"
    by (simp only: cat)
  from repartition_run [OF s1(1) rr rel] len content show ?thesis
    by blast
qed


section \<open>Repartitioning a collection of arrays\<close>

lemma array_collectionD:
  "array_collection rest dt ps \<Longrightarrow> y \<in> set (concat ps) \<Longrightarrow> array_shard rest dt y"
  by (auto simp: array_collection_def list_all_iff)

lemma array_shard_cases:
  assumes "array_shard rest dt y"
  obtains k buf where "y = NdArray (k # rest) dt buf" "length buf = k * prod_list rest"
proof (cases y)
  case (NdArray shp t buf)
  with assms show ?thesis
    by (cases shp) (auto simp: array_shard_def intro: that)
qed (use assms in \<open>auto simp: array_shard_def\<close>)

lemma shard_elements_array:
  "shard_elements (NdArray (k # rest) dt buf) = map (NdArray rest dt) (chunks (prod_list rest) k buf)"
  by (simp add: chunks_def)

lemma py_iter_array: "array_shard rest dt y \<Longrightarrow> py_iter y = Inr (shard_elements y)"
  by (auto elim: array_shard_cases)

lemma chunks_Suc: "chunks m (Suc k) (c @ buf) = c # chunks m k buf" if "length c = m"
proof -
  have "chunks m (Suc k) (c @ buf)
          = take m (drop (0 * m) (c @ buf)) # map (\<lambda>i. take m (drop (Suc i * m) (c @ buf))) [0..<k]"
    unfolding chunks_def by (rule map_upt_Suc)
  also have "take m (drop (0 * m) (c @ buf)) = c"
    using that by simp
  also have "map (\<lambda>i. take m (drop (Suc i * m) (c @ buf))) [0..<k] = chunks m k buf"
    using that by (simp add: chunks_def)
  finally show ?thesis .
qed

lemma chunks_concat:
  assumes "\<And>c. c \<in> set cs \<Longrightarrow> length c = m"
  shows "chunks m (length cs) (concat cs) = cs"
  using assms
proof (induction cs)
  case Nil
  then show ?case by (simp add: chunks_def)
next
  case (Cons c cs)
  then show ?case by (simp add: chunks_Suc)
qed

lemma length_chunk:
  assumes "length buf = k * m" "c \<in> set (chunks m k buf)"
  shows "length c = m"
proof -
  from assms(2) obtain i where i: "i < k" "c = take m (drop (i * m) buf)"
    by (auto simp: chunks_def)
  have "Suc i * m \<le> k * m"
    using i(1) by (intro mult_le_mono1) simp
  then have "m \<le> k * m - i * m"
    by simp
  with i(2) assms(1) show ?thesis by simp
qed

lemma chunks_append:
  assumes "length a = ka * m"
  shows "chunks m (ka + kb) (a @ b) = chunks m ka a @ chunks m kb b"
  using assms
proof (induction ka arbitrary: a)
  case 0
  then show ?case by (simp add: chunks_def)
next
  case (Suc ka)
  define c where "c = take m a"
  define a' where "a' = drop m a"
  have a: "a = c @ a'" by (simp add: c_def a'_def)
  have c: "length c = m" using Suc.prems by (simp add: c_def)
  have a': "length a' = ka * m" using Suc.prems by (simp add: a'_def)
  have "chunks m (Suc ka + kb) (a @ b) = chunks m (Suc (ka + kb)) (c @ (a' @ b))"
    by (simp add: a)
  also have "\<dots> = c # chunks m (ka + kb) (a' @ b)"
    by (rule chunks_Suc [OF c])
  also have "\<dots> = c # (chunks m ka a' @ chunks m kb b)"
    by (simp only: Suc.IH [OF a'])
  finally have l: "chunks m (Suc ka + kb) (a @ b) = c # (chunks m ka a' @ chunks m kb b)" .
  have "chunks m (Suc ka) (c @ a') = c # chunks m ka a'"
    by (rule chunks_Suc [OF c])
  with l show ?case by (simp add: a)
qed

lemma sub_arrays:
  assumes "array_shard rest dt y" "z \<in> set (shard_elements y)"
  shows "\<exists>chunk. z = NdArray rest dt chunk \<and> length chunk = prod_list rest"
proof -
  from assms(1) obtain k buf where y: "y = NdArray (k # rest) dt buf"
    and len: "length buf = k * prod_list rest"
    by (rule array_shard_cases)
  from assms(2) y have "z \<in> set (map (NdArray rest dt) (chunks (prod_list rest) k buf))"
    by (simp only: shard_elements_array)
  then obtain c where c: "c \<in> set (chunks (prod_list rest) k buf)" "z = NdArray rest dt c"
    by auto
  from length_chunk [OF len c(1)] c(2) show ?thesis by blast
qed

lemma stack_items:
  assumes items: "\<And>z. z \<in> set b \<Longrightarrow> \<exists>chunk. z = NdArray rest dt chunk \<and> length chunk = prod_list rest"
  shows "\<exists>st. np_stack_astype dt b = Inr st \<and> concat (map shard_elements st) = b"
proof (cases b)
  case Nil
  then show ?thesis by (simp add: np_stack_astype_def)
next
  case (Cons z zs)
  have each: "is_NdArray y \<and> nd_shape y = rest \<and> nd_dtype y = dt
              \<and> y = NdArray rest dt (nd_buffer y) \<and> length (nd_buffer y) = prod_list rest"
    if "y \<in> set b" for y
    using items [OF that] by auto
  then have all: "list_all is_NdArray b" "list_all (\<lambda>y. nd_shape y = nd_shape z) b"
    "list_all (\<lambda>y. nd_dtype y = dt) b" "nd_shape z = rest"
    using Cons by (auto simp: list_all_iff)
  then have st: "np_stack_astype dt b = Inr [NdArray (length b # rest) dt (concat (map nd_buffer b))]"
    using Cons by (simp add: np_stack_astype_def)
  have "chunks (prod_list rest) (length (map nd_buffer b)) (concat (map nd_buffer b)) = map nd_buffer b"
    by (rule chunks_concat) (use each in auto)
  then have ch: "chunks (prod_list rest) (length b) (concat (map nd_buffer b)) = map nd_buffer b"
    by (simp only: length_map)
  have "shard_elements (NdArray (length b # rest) dt (concat (map nd_buffer b)))
          = map (NdArray rest dt) (chunks (prod_list rest) (length b) (concat (map nd_buffer b)))"
    by (rule shard_elements_array)
  also have "\<dots> = map (\<lambda>y. NdArray rest dt (nd_buffer y)) b"
    by (simp only: ch map_map comp_def)
  also have "\<dots> = b"
    using each by (simp add: map_idI)
  finally show ?thesis
    using st by simp
qed

lemma concatenate_arrays:
  assumes "g \<noteq> []" and arr: "\<And>y. y \<in> set g \<Longrightarrow> array_shard rest dt y"
  shows "\<exists>a. np_concatenate g = Inr a \<and> shard_elements a = concat (map shard_elements g)"
proof -
  from assms(1) obtain x xs where g: "g = x # xs" by (cases g) auto
  have each: "is_NdArray y \<and> nd_shape y \<noteq> [] \<and> tl (nd_shape y) = rest \<and> nd_dtype y = dt
              \<and> length (nd_buffer y) = hd (nd_shape y) * prod_list rest
              \<and> shard_elements y
                  = map (NdArray rest dt) (chunks (prod_list rest) (hd (nd_shape y)) (nd_buffer y))"
    if "y \<in> set g" for y
    using arr [OF that]
    by (auto elim!: array_shard_cases simp: shard_elements_array simp del: shard_elements.simps)
  then have all: "list_all is_NdArray g" "\<not> list_ex (\<lambda>y. nd_shape y = []) g"
    "list_all (\<lambda>y. tl (nd_shape y) = tl (nd_shape x)) g" "list_all (\<lambda>y. nd_dtype y = nd_dtype x) g"
    "tl (nd_shape x) = rest" "nd_dtype x = dt"
    using g by (auto simp: list_all_iff list_ex_iff)
  then have cc: "np_concatenate g
              = Inr (NdArray (sum_list (map (\<lambda>y. hd (nd_shape y)) g) # rest) dt
                       (concat (map nd_buffer g)))"
    using g by (simp add: np_concatenate_def)
  have ch: "chunks (prod_list rest) (sum_list (map (\<lambda>y. hd (nd_shape y)) h)) (concat (map nd_buffer h))
              = concat (map (\<lambda>y. chunks (prod_list rest) (hd (nd_shape y)) (nd_buffer y)) h)"
    if "set h \<subseteq> set g" for h
    using that
  proof (induction h)
    case Nil
    then show ?case by (simp add: chunks_def)
  next
    case (Cons y h)
    then have "length (nd_buffer y) = hd (nd_shape y) * prod_list rest"
      using each [of y] by simp
    from chunks_append [OF this] Cons show ?case
      by simp
  qed
  have "shard_elements (NdArray (sum_list (map (\<lambda>y. hd (nd_shape y)) g) # rest) dt
                       (concat (map nd_buffer g)))
          = map (NdArray rest dt)
              (concat (map (\<lambda>y. chunks (prod_list rest) (hd (nd_shape y)) (nd_buffer y)) g))"
    by (simp only: shard_elements_array ch [OF subset_refl])
  also have "\<dots> = concat (map (\<lambda>y. map (NdArray rest dt)
                       (chunks (prod_list rest) (hd (nd_shape y)) (nd_buffer y))) g)"
    by (simp only: map_concat map_map comp_def)
  also have "\<dots> = concat (map shard_elements g)"
    using each by (intro arg_cong [where f = concat] map_cong) simp_all
  finally show ?thesis
    using cc by simp
qed


lemma array_first:
  assumes h1: "rdd s1 = map Inr ps" and xs: "concat ps = x # xs" and a: "array_shard rest dt x"
  shows "rdd_first (rdd s1) = Inr x" "is_NdArray x" "length (nd_shape x) > 0" "nd_dtype x = dt"
    "get_class_name x = ''numpy.ndarray''"
proof -
  show "rdd_first (rdd s1) = Inr x"
    by (simp only: h1 rdd_first_healthy xs list.case)
  from a show "is_NdArray x" "length (nd_shape x) > 0" "nd_dtype x = dt"
    "get_class_name x = ''numpy.ndarray''"
    by (auto elim: array_shard_cases)
qed

lemma repartition_array_increase:
  assumes h: "rdd s = map Inr ps" and t: "array_collection rest dt ps" and ok: "type_cache_ok s"
      and n: "length ps < n" and rel: "release_ok e"
  shows "\<exists>qs s' out. repartition e sh n s =
           (Inr \<lparr>rdd = map Inr qs, rdd_is_cached = True, user_cached = False,
                 eager = eager_mode e, type_class_name = None, type_schema = None\<rparr>, s', out)
          \<and> length qs = n
          \<and> mset (concat (map shard_elements (concat qs)))
              = mset (concat (map shard_elements (concat ps)))"
proof -
  define items where "items = concat (map shard_elements (concat ps))"
  define B where "B = distribute (shuffle_target sh) n items"
  from n have pos: "0 < n" by simp
  from t obtain x xs where xs: "concat ps = x # xs"
    by (cases "concat ps") (auto simp: array_collection_def)
  have ax: "array_shard rest dt x"
    by (rule array_collectionD [OF t first_of_collection [OF xs]])
  from class_name_healthy [OF h xs ok] obtain s1
    where s1: "private_get_class_name s = (Inr (get_class_name x), s1)" "rdd s1 = rdd s"
    by auto
  from s1(2) h have h1: "rdd s1 = map Inr ps" by simp
  note fx = array_first [OF h1 xs ax]
  have fm: "flatMap py_iter (map Inr ps) = map Inr (map (\<lambda>p. concat (map shard_elements p)) ps)"
    by (rule flatMap_healthy) (rule py_iter_array, rule array_collectionD [OF t])
  have it: "concat (map (\<lambda>p. concat (map shard_elements p)) ps) = items"
    unfolding items_def by (rule concat_map_concat_map)
  have rp: "rdd_repartition (shuffle_target sh) n (flatMap py_iter (map Inr ps)) = Inr (map Inr B)"
    unfolding B_def by (simp only: fm rdd_repartition_healthy [OF pos] it)
  have mB: "mset (concat B) = mset items"
    unfolding B_def by (rule mset_distribute [OF pos])
  have item: "\<exists>chunk. z = NdArray rest dt chunk \<and> length chunk = prod_list rest"
    if "b \<in> set B" "z \<in> set b" for b z
  proof -
    from that have "z \<in> set (concat B)" by auto
    with mB have "z \<in> set items" by (metis set_mset_mset)
    then obtain y where "y \<in> set (concat ps)" "z \<in> set (shard_elements y)"
      by (auto simp: items_def)
    with array_collectionD [OF t] show ?thesis
      by (blast intro: sub_arrays)
  qed
  have "\<exists>st. np_stack_astype dt b = Inr st \<and> concat (map shard_elements st) = b"
    if "b \<in> set B" for b
    by (rule stack_items) (rule item [OF that])
  then have "\<forall>b\<in>set B. \<exists>st. np_stack_astype dt b = Inr st \<and> concat (map shard_elements st) = b"
    by blast
  then obtain f where f: "\<forall>b\<in>set B. np_stack_astype dt b = Inr (f b)
                              \<and> concat (map shard_elements (f b)) = b"
    by (rule bchoice [THEN exE])
  define qs where "qs = map f B"
  have "mapPartitions (np_stack_astype dt) (map Inr B) = map (np_stack_astype dt) B"
    by (rule mapPartitions_healthy)
  also have "\<dots> = map (\<lambda>b. Inr (f b)) B"
    using f by (intro map_cong) simp_all
  also have "\<dots> = map Inr qs"
    unfolding qs_def by simp
  finally have r: "mapPartitions (np_stack_astype dt) (map Inr B) = map Inr qs" .
  have rr: "repartitioned_rdd sh n (get_class_name x) s1 = (Inr (map Inr qs), s1)"
    using n fx(1,2,3) by (simp add: repartitioned_rdd_def getNumPartitions_def h1 rp r fx(4,5))
  have len: "length qs = n"
    by (simp add: qs_def B_def length_distribute)
  have "concat (map shard_elements (concat qs)) = concat (map (\<lambda>b. concat (map shard_elements (f b))) B)"
    unfolding qs_def by (simp only: concat_map_concat_map [symmetric] map_map comp_def)
  also have "\<dots> = concat (map (\<lambda>b. b) B)"
    using f by (intro arg_cong [where f = concat] map_cong) simp_all
  finally have "concat (map shard_elements (concat qs)) = concat B"
    by simp
  with mB have content: "mset (concat (map shard_elements (concat qs)))
                              = mset (concat (map shard_elements (concat ps)))"
    by (simp only: items_def)
  from repartition_run [OF s1(1) rr rel] len content show ?thesis
    by blast
qed

lemma repartition_array_decrease:
  assumes h: "rdd s = map Inr ps" and t: "array_collection rest dt ps" and ok: "type_cache_ok s"
      and n: "n \<le> length ps" and pos: "0 < n" and rel: "release_ok e"
  shows "\<exists>qs s' out. repartition e sh n s =
           (Inr \<lparr>rdd = map Inr qs, rdd_is_cached = True, user_cached = False,
                 eager = eager_mode e, type_class_name = None, type_schema = None\<rparr>, s', out)
          \<and> length qs = n
          \<and> concat (map shard_elements (concat qs)) = concat (map shard_elements (concat ps))"
proof -
  define G where "G = map concat (coalesce_groups n ps)"
  from t obtain x xs where xs: "concat ps = x # xs"
    by (cases "concat ps") (auto simp: array_collection_def)
  have ax: "array_shard rest dt x"
    by (rule array_collectionD [OF t first_of_collection [OF xs]])
  from class_name_healthy [OF h xs ok] obtain s1
    where s1: "private_get_class_name s = (Inr (get_class_name x), s1)" "rdd s1 = rdd s"
    by auto
  from s1(2) h have h1: "rdd s1 = map Inr ps" by simp
  note fx = array_first [OF h1 xs ax]
  have cat: "concat G = concat ps"
    unfolding G_def by (simp only: concat_groups concat_coalesce_groups [OF pos])
  have inG: "array_shard rest dt y" if "g \<in> set G" "y \<in> set g" for g y
  proof -
    from that have "y \<in> set (concat G)" by auto
    then show ?thesis by (simp only: cat array_collectionD [OF t])
  qed
  have nonempty: "g \<noteq> []" if "g \<in> set G" for g
  proof -
    from that obtain gr where gr: "gr \<in> set (coalesce_groups n ps)" "g = concat gr"
      by (auto simp: G_def)
    from coalesce_groups_nonempty [OF pos n gr(1)] obtain p where p: "p \<in> set gr"
      by (cases gr) auto
    from coalesce_groups_subset [OF pos gr(1) p] t have "p \<noteq> []"
      by (auto simp: array_collection_def list_all_iff)
    with p gr(2) show ?thesis by auto
  qed
  have "\<exists>a. np_concatenate g = Inr a \<and> shard_elements a = concat (map shard_elements g)"
    if "g \<in> set G" for g
    by (rule concatenate_arrays) (rule nonempty [OF that], rule inG [OF that])
  then have "\<forall>g\<in>set G. \<exists>a. np_concatenate g = Inr a
                         \<and> shard_elements a = concat (map shard_elements g)"
    by blast
  then obtain f where f: "\<forall>g\<in>set G. np_concatenate g = Inr (f g)
                              \<and> shard_elements (f g) = concat (map shard_elements g)"
    by (rule bchoice [THEN exE])
  define qs where "qs = map (\<lambda>g. [f g]) G"
  have "mapPartitions (\<lambda>iter. one_item (np_concatenate iter)) (map Inr G)
          = map (\<lambda>iter. one_item (np_concatenate iter)) G"
    by (rule mapPartitions_healthy)
  also have "\<dots> = map (\<lambda>g. Inr [f g]) G"
    using f by (intro map_cong) (simp_all add: one_item_def)
  also have "\<dots> = map Inr qs"
    unfolding qs_def by simp
  finally have r: "mapPartitions (\<lambda>iter. one_item (np_concatenate iter)) (map Inr G) = map Inr qs" .
  have co: "rdd_coalesce n (map Inr ps) = Inr (map Inr G)"
    unfolding G_def by (rule rdd_coalesce_healthy [OF pos])
  have rr: "repartitioned_rdd sh n (get_class_name x) s1 = (Inr (map Inr qs), s1)"
    using n fx(1,2,3) by (simp add: repartitioned_rdd_def getNumPartitions_def h1 co r fx(4,5))
  have len: "length qs = n"
    using n by (simp add: qs_def G_def length_coalesce_groups)
  have "concat (map shard_elements (concat qs)) = concat (map (\<lambda>g. shard_elements (f g)) G)"
    unfolding qs_def by (induction G) simp_all
  also have "\<dots> = concat (map (\<lambda>g. concat (map shard_elements g)) G)"
    using f by (intro arg_cong [where f = concat] map_cong) simp_all
  also have "\<dots> = concat (map shard_elements (concat G))"
    by (rule concat_map_concat_map)
  finally have content: "concat (map shard_elements (concat qs))
                           = concat (map shard_elements (concat ps))"
    by (simp only: cat)
  from repartition_run [OF s1(1) rr rel] len content show ?thesis
    by blast
qed

text \<open>Any other first shard: the plain repartition of the engine.\<close>

lemma repartition_other:
  assumes h: "rdd s = map Inr ps" and xs: "concat ps = x # xs" and ok: "type_cache_ok s"
      and x1: "\<not> is_DataFrame x" and x2: "\<not> is_PyList x" and x3: "\<not> is_NdArray x \<or> nd_shape x = []"
      and pos: "0 < n" and rel: "release_ok e"
  shows "\<exists>qs s' out. repartition e sh n s =
           (Inr \<lparr>rdd = map Inr qs, rdd_is_cached = True, user_cached = False,
                 eager = eager_mode e, type_class_name = None, type_schema = None\<rparr>, s', out)
          \<and> length qs = n
          \<and> mset (concat (map shard_elements (concat qs)))
              = mset (concat (map shard_elements (concat ps)))"
proof -
  define qs where "qs = distribute (shuffle_target sh) n (concat ps)"
  from class_name_healthy [OF h xs ok] obtain s1
    where s1: "private_get_class_name s = (Inr (get_class_name x), s1)" "rdd s1 = rdd s"
    by auto
  from s1(2) h have h1: "rdd s1 = map Inr ps" by simp
  have first: "rdd_first (map Inr ps) = Inr x"
    by (simp only: rdd_first_healthy xs list.case)
  have rp: "rdd_repartition (shuffle_target sh) n (map Inr ps) = Inr (map Inr qs)"
    unfolding qs_def by (rule rdd_repartition_healthy [OF pos])
  have rr: "repartitioned_rdd sh n (get_class_name x) s1 = (Inr (map Inr qs), s1)"
    using x1 x2 x3 by (cases x) (simp_all add: repartitioned_rdd_def h1 first rp)
  have len: "length qs = n"
    by (simp add: qs_def length_distribute)
  have "mset (concat qs) = mset (concat ps)"
    unfolding qs_def by (rule mset_distribute [OF pos])
  then have content: "mset (concat (map shard_elements (concat qs)))
                        = mset (concat (map shard_elements (concat ps)))"
    by (rule mset_concat_map_cong)
  from repartition_run [OF s1(1) rr rel] len content show ?thesis
    by blast
qed


section \<open>Every kind of collection\<close>

lemma repartition_core:
  assumes h: "rdd s = map Inr ps" and wf: "well_formed ps" and ok: "type_cache_ok s"
      and pos: "0 < n" and rel: "release_ok e"
  shows "\<exists>qs s' out. repartition e sh n s =
           (Inr \<lparr>rdd = map Inr qs, rdd_is_cached = True, user_cached = False,
                 eager = eager_mode e, type_class_name = None, type_schema = None\<rparr>, s', out)
          \<and> length qs = n
          \<and> mset (concat (map shard_elements (concat qs)))
              = mset (concat (map shard_elements (concat ps)))"
proof -
  from wf obtain x xs where xs: "concat ps = x # xs"
    by (cases "concat ps") (auto simp: well_formed_def)
  have dir: "length ps < n \<or> n \<le> length ps" by linarith
  show ?thesis
  proof (cases x)
    case (DataFrame cols dts rws)
    with wf xs have t: "table_collection cols dts ps"
      by (simp add: well_formed_def)
    from dir show ?thesis
    proof
      assume n: "length ps < n"
      from repartition_table_increase [OF h t ok n rel] table_increase_content [OF t pos]
      show ?thesis
        by (metis length_map length_upt minus_nat.diff_0)
    next
      assume n: "n \<le> length ps"
      from repartition_table_decrease [OF h t ok n pos rel] show ?thesis
        by metis
    qed
  next
    case (PyList items)
    with wf xs have t: "list_collection ps"
      by (simp add: well_formed_def)
    from dir show ?thesis
    proof
      assume n: "length ps < n"
      from repartition_list_increase [OF h t ok n rel] show ?thesis .
    next
      assume n: "n \<le> length ps"
      from repartition_list_decrease [OF h t ok n pos rel] show ?thesis
        by metis
    qed
  next
    case (NdArray shp dt buf)
    show ?thesis
    proof (cases shp)
      case Nil
      with NdArray show ?thesis
        by (intro repartition_other [OF h xs ok _ _ _ pos rel]) simp_all
    next
      case (Cons k rest)
      with NdArray wf xs have t: "array_collection rest dt ps"
        by (simp add: well_formed_def)
      from dir show ?thesis
      proof
        assume n: "length ps < n"
        from repartition_array_increase [OF h t ok n rel] show ?thesis .
      next
        assume n: "n \<le> length ps"
        from repartition_array_decrease [OF h t ok n pos rel] show ?thesis
          by metis
      qed
    qed
  next
    case (PyInt i)
    then show ?thesis
      by (intro repartition_other [OF h xs ok _ _ _ pos rel]) simp_all
  next
    case (PyStr str)
    then show ?thesis
      by (intro repartition_other [OF h xs ok _ _ _ pos rel]) simp_all
  next
    case (PyTuple items)
    then show ?thesis
      by (intro repartition_other [OF h xs ok _ _ _ pos rel]) simp_all
  next
    case (PyDict kvs)
    then show ?thesis
      by (intro repartition_other [OF h xs ok _ _ _ pos rel]) simp_all
  qed
qed


section \<open>Facts about the handoff\<close>

lemma put_to_plasma_present:
  assumes "index < length ids" "contains st (ids ! index)"
  shows "put_to_plasma renv ids index res st = (Inr (ids ! index, get_node_ip renv index), st)"
  using assms by (simp add: put_to_plasma_def Let_def)

lemma put_to_plasma_absent:
  assumes "index < length ids" "\<not> contains st (ids ! index)"
  shows "put_to_plasma renv ids index res st =
           (if put_returns renv (ids ! index) = ids ! index
            then Inr (ids ! index, get_node_ip renv index)
            else Inl (AssertionError ''Errors occurred when putting data into plasma object store''),
            st\<lparr>objects := (objects st)(ids ! index \<mapsto> res), writes := Suc (writes st)\<rparr>)"
  using assms by (simp add: put_to_plasma_def client_put_def Let_def)

lemma put_to_plasma_success:
  assumes "put_to_plasma renv ids index res st = (Inr id_ip, st1)"
  shows "index < length ids \<and> id_ip = (ids ! index, get_node_ip renv index)
         \<and> contains st1 (ids ! index) \<and> (\<forall>oid. contains st oid \<longrightarrow> contains st1 oid)"
proof -
  from assms have i: "index < length ids"
    by (auto simp: put_to_plasma_def split: if_splits)
  show ?thesis
  proof (cases "contains st (ids ! index)")
    case True
    with assms i show ?thesis by (simp add: put_to_plasma_present)
  next
    case False
    with assms i show ?thesis
      by (auto simp: put_to_plasma_absent contains_def split: if_splits)
  qed
qed

lemma put_to_plasma_grows:
  assumes "put_to_plasma renv ids index res st = (r, st1)" "contains st oid"
  shows "contains st1 oid"
  using assms
  by (auto simp: put_to_plasma_def client_put_def contains_def Let_def split: if_splits)

lemma run_tasks_grows:
  assumes "run_tasks renv ids i r st = (res, st')" "contains st oid"
  shows "contains st' oid"
  using assms
proof (induction r arbitrary: i st res st')
  case Nil
  then show ?case by simp
next
  case (Cons p r)
  show ?case
  proof (cases p)
    case (Inl err)
    with Cons.prems show ?thesis by simp
  next
    case (Inr v)
    obtain r1 st1 where put: "put_to_plasma renv ids i v st = (r1, st1)"
      by (cases "put_to_plasma renv ids i v st") auto
    note c1 = put_to_plasma_grows [OF put Cons.prems(2)]
    show ?thesis
    proof (cases r1)
      case (Inl err)
      with Cons.prems Inr put c1 show ?thesis by simp
    next
      case r1: (Inr id_ip)
      obtain r2 st2 where tl: "run_tasks renv ids (Suc i) r st1 = (r2, st2)"
        by (cases "run_tasks renv ids (Suc i) r st1") auto
      from Cons.prems(1) Inr put r1 tl have "st' = st2"
        by (cases r2) simp_all
      with Cons.IH [OF tl c1] show ?thesis by simp
    qed
  qed
qed

lemma run_tasks_again:
  assumes "run_tasks renv ids i r st = (Inr rs, st')"
  shows "\<exists>rs'. run_tasks renv' ids i r st' = (Inr rs', st')
           \<and> map fst rs' = map fst rs \<and> length rs' = length r
           \<and> map fst rs = take (length r) (drop i ids)
           \<and> (\<forall>p\<in>set rs. contains st' (fst p))"
  using assms
proof (induction r arbitrary: i st rs)
  case Nil
  then show ?case by simp
next
  case (Cons p r)
  from Cons.prems obtain v where p: "p = Inr v"
    by (cases p) simp_all
  obtain r1 st1 where put: "put_to_plasma renv ids i v st = (r1, st1)"
    by (cases "put_to_plasma renv ids i v st") auto
  from Cons.prems p put obtain id_ip where r1: "r1 = Inr id_ip"
    by (cases r1) simp_all
  obtain r2 st2 where tl: "run_tasks renv ids (Suc i) r st1 = (r2, st2)"
    by (cases "run_tasks renv ids (Suc i) r st1") auto
  from Cons.prems p put r1 tl obtain rest where r2: "r2 = Inr rest"
    and rs: "rs = id_ip # rest" and st': "st' = st2"
    by (cases r2) simp_all
  from put r1 have ok: "i < length ids" "id_ip = (ids ! i, get_node_ip renv i)"
    "contains st1 (ids ! i)"
    using put_to_plasma_success by blast+
  from tl r2 st' have tl': "run_tasks renv ids (Suc i) r st1 = (Inr rest, st')"
    by simp
  from Cons.IH [OF tl'] obtain rest'
    where ih: "run_tasks renv' ids (Suc i) r st' = (Inr rest', st')"
      "map fst rest' = map fst rest" "length rest' = length r"
      "map fst rest = take (length r) (drop (Suc i) ids)"
      "\<forall>p\<in>set rest. contains st' (fst p)"
    by blast
  from run_tasks_grows [OF tl' ok(3)] have here: "contains st' (ids ! i)" .
  with ok have again: "put_to_plasma renv' ids i v st' = (Inr (ids ! i, get_node_ip renv' i), st')"
    by (simp add: put_to_plasma_present)
  have "take (Suc (length r)) (drop i ids) = ids ! i # take (length r) (drop (Suc i) ids)"
    using ok(1) by (simp add: Cons_nth_drop_Suc [symmetric])
  with p again ih rs ok(2) here show ?case
    by simp
qed

lemma uncache_result:
  assumes "uncache e s = (r, s', out)"
  shows "rdd s' = rdd s \<and> \<not> rdd_is_cached s'"
  using assms
  by (auto simp: uncache_def is_cached_def Let_def split: if_splits option.splits)

lemma uncache_released:
  "\<not> rdd_is_cached s \<Longrightarrow> uncache e s = (Inr (), s\<lparr>user_cached := False\<rparr>, [])"
  by (simp add: uncache_def is_cached_def Let_def)

section \<open>Splitting an array into sections\<close>

























section \<open>Releasing a cache never fails the caller\<close>

text \<open>
  C8. \<^verbatim>\<open>uncache()\<close> on a collection whose cache has already been released returns
  normally, whatever the engine would do on a release: the release is not even
  attempted. When the cache is still held and the release raises a \<^verbatim>\<open>Py4JError\<close>,
  the error is swallowed, one line is printed, and the call returns normally.
\<close>

theorem uncache_never_fatal:
  "(\<not> is_cached s \<longrightarrow> uncache e s = (Inr (), s\<lparr>user_cached := False\<rparr>, []))
   \<and> (is_cached s \<longrightarrow> unpersist_raises e = Some err \<longrightarrow> is_Py4JError err \<longrightarrow>
        uncache e s =
          (Inr (), s\<lparr>user_cached := False, rdd_is_cached := False\<rparr>,
           [''Try to unpersist an uncached rdd'']))"
  by (simp add: uncache_def is_cached_def Let_def)

theorem uncache_never_fatal_witness:
  "uncache \<lparr>eager_mode = True, unpersist_raises = Some (Py4JError ''not persisted'')\<rparr>
     \<lparr>rdd = [Inr [PyInt 1]], rdd_is_cached = False, user_cached = True, eager = True,
      type_class_name = None, type_schema = None\<rparr>
   = (Inr (),
      \<lparr>rdd = [Inr [PyInt 1]], rdd_is_cached = False, user_cached = False, eager = True,
       type_class_name = None, type_schema = None\<rparr>, [])
   \<and> uncache \<lparr>eager_mode = True, unpersist_raises = Some (Py4JError ''not persisted'')\<rparr>
     \<lparr>rdd = [Inr [PyInt 1]], rdd_is_cached = True, user_cached = True, eager = True,
      type_class_name = None, type_schema = None\<rparr>
   = (Inr (),
      \<lparr>rdd = [Inr [PyInt 1]], rdd_is_cached = False, user_cached = False, eager = True,
       type_class_name = None, type_schema = None\<rparr>,
      [''Try to unpersist an uncached rdd''])"
  using uncache_never_fatal
          [of "\<lparr>rdd = [Inr [PyInt 1]], rdd_is_cached = False, user_cached = True, eager = True,
                type_class_name = None, type_schema = None\<rparr>"
              "\<lparr>eager_mode = True, unpersist_raises = Some (Py4JError ''not persisted'')\<rparr>"
              "Py4JError ''not persisted''"]
        uncache_never_fatal
          [of "\<lparr>rdd = [Inr [PyInt 1]], rdd_is_cached = True, user_cached = True, eager = True,
                type_class_name = None, type_schema = None\<rparr>"
              "\<lparr>eager_mode = True, unpersist_raises = Some (Py4JError ''not persisted'')\<rparr>"
              "Py4JError ''not persisted''"]
  by (simp add: is_cached_def)


section \<open>Transforming leaves the receiver's data alone\<close>

text \<open>
  C7. \<^verbatim>\<open>transform_shard\<close> leaves the partitions, the eager flag and the cached type
  information of the receiver as they were: after the call the receiver is either
  unchanged or differs only in that its RDD is no longer cached. A user-pinned
  receiver is not touched at all. The collection returned holds \<^verbatim>\<open>func\<close> applied to
  every element and starts system-cached; the receiver, unless pinned, is then
  uncached.
\<close>

theorem transform_shard_frame:
  assumes run: "transform_shard e func s = (res, s', out)"
  shows "rdd s' = rdd s \<and> eager s' = eager s
         \<and> type_class_name s' = type_class_name s \<and> type_schema s' = type_schema s
         \<and> (user_cached s \<longrightarrow> s' = s)
         \<and> (s' = s \<or> s' = s\<lparr>rdd_is_cached := False\<rparr>)
         \<and> (\<forall>t. res = Inr t \<longrightarrow>
               cache_state_of t = SystemCached
               \<and> rdd t = mapPartitions (\<lambda>iter. first_error (map func iter)) (rdd s)
               \<and> (\<not> user_cached s \<longrightarrow> cache_state_of s' = Uncached))"
proof (cases "SparkXShards_init e
                (mapPartitions (\<lambda>iter. first_error (map func iter)) (rdd s)) False")
  case (Inl err)
  with run have "res = Inl err" "s' = s"
    by (simp_all add: transform_shard_def)
  then show ?thesis by simp
next
  case (Inr t)
  obtain r1 s1 o1 where u: "private_uncache e s = (r1, s1, o1)"
    by (cases "private_uncache e s") auto
  from run Inr u have s': "s' = s1"
    by (cases r1) (simp_all add: transform_shard_def)
  from run Inr u have res: "res = Inr t \<or> (\<exists>err. res = Inl err)"
    by (cases r1) (auto simp: transform_shard_def)
  note fr = private_uncache_frame [OF u]
  have unc: "\<not> user_cached s \<Longrightarrow> cache_state_of s1 = Uncached"
    using fr by (simp add: cache_state_of_def)
  from fr s' init_cache_state [OF Inr] res unc show ?thesis
    by auto
qed

theorem transform_shard_frame_witness:
  "transform_shard \<lparr>eager_mode = True, unpersist_raises = None\<rparr>
       (\<lambda>x. Inr (PyList [x]))
       \<lparr>rdd = [Inr [PyInt 1, PyInt 2], Inr [PyInt 3]], rdd_is_cached = True,
        user_cached = False, eager = True, type_class_name = None, type_schema = None\<rparr>
     = (Inr \<lparr>rdd = [Inr [PyList [PyInt 1], PyList [PyInt 2]], Inr [PyList [PyInt 3]]],
             rdd_is_cached = True, user_cached = False, eager = True,
             type_class_name = None, type_schema = None\<rparr>,
        \<lparr>rdd = [Inr [PyInt 1, PyInt 2], Inr [PyInt 3]], rdd_is_cached = False,
         user_cached = False, eager = True, type_class_name = None, type_schema = None\<rparr>,
        [])
   \<and> cache_state_of
        \<lparr>rdd = [Inr [PyList [PyInt 1], PyList [PyInt 2]], Inr [PyList [PyInt 3]]],
         rdd_is_cached = True, user_cached = False, eager = True,
         type_class_name = None, type_schema = None\<rparr> = SystemCached
   \<and> cache_state_of
        \<lparr>rdd = [Inr [PyInt 1, PyInt 2], Inr [PyInt 3]], rdd_is_cached = False,
         user_cached = False, eager = True, type_class_name = None, type_schema = None\<rparr>
       = Uncached"
proof -
  let ?e = "\<lparr>eager_mode = True, unpersist_raises = None\<rparr>"
  let ?s = "\<lparr>rdd = [Inr [PyInt 1, PyInt 2], Inr [PyInt 3]], rdd_is_cached = True,
             user_cached = False, eager = True, type_class_name = None, type_schema = None\<rparr>"
  let ?t = "\<lparr>rdd = [Inr [PyList [PyInt 1], PyList [PyInt 2]], Inr [PyList [PyInt 3]]],
             rdd_is_cached = True, user_cached = False, eager = True,
             type_class_name = None, type_schema = None\<rparr>"
  have run: "transform_shard ?e (\<lambda>x. Inr (PyList [x])) ?s
               = (Inr ?t, ?s\<lparr>rdd_is_cached := False\<rparr>, [])"
    by (simp add: transform_shard_def SparkXShards_init_def compute_def rdd_count_def
          mapPartitions_def private_uncache_def uncache_def is_cached_def Let_def)
  from transform_shard_frame [OF run] run show ?thesis
    by (simp add: mapPartitions_def)
qed

section \<open>A zip that fails on its checks leaves both operands as they were\<close>

text \<open>
  C10. When \<^verbatim>\<open>other\<close> is not a \<^verbatim>\<open>SparkXShards\<close>, or the two partition counts differ,
  \<^verbatim>\<open>zip\<close> raises its assertion and both operands, cache flags included, are what they
  were. Whenever a call of \<^verbatim>\<open>zip\<close> changes one of its operands, \<^verbatim>\<open>other\<close> was a
  \<^verbatim>\<open>SparkXShards\<close> and the zipped collection had been constructed successfully.
\<close>

theorem zip_failure_keeps_cache_state:
  "((\<forall>other_shards. other \<noteq> OtherSpark other_shards) \<longrightarrow>
      zip_shards e s other = (Inl (AssertionError ''other should be a SparkXShards''), s, other, []))
   \<and> (num_partitions s \<noteq> num_partitions other_shards \<longrightarrow>
        zip_shards e s (OtherSpark other_shards) =
          (Inl (AssertionError ''The two SparkXShards should have the same number of partitions''),
           s, OtherSpark other_shards, []))
   \<and> (\<forall>res s' other' out.
         zip_shards e s other = (res, s', other', out) \<longrightarrow> (s' \<noteq> s \<or> other' \<noteq> other) \<longrightarrow>
         (\<exists>other_shards r z. other = OtherSpark other_shards
            \<and> rdd_zip (rdd s) (rdd other_shards) = Inr r \<and> SparkXShards_init e r False = Inr z))"
proof (intro conjI allI impI)
  assume "\<forall>other_shards. other \<noteq> OtherSpark other_shards"
  then show "zip_shards e s other = (Inl (AssertionError ''other should be a SparkXShards''), s, other, [])"
    by (cases other) (simp_all add: zip_shards_def)
next
  assume "num_partitions s \<noteq> num_partitions other_shards"
  then show "zip_shards e s (OtherSpark other_shards) =
          (Inl (AssertionError ''The two SparkXShards should have the same number of partitions''),
           s, OtherSpark other_shards, [])"
    by (simp add: zip_shards_def)
next
  fix res s' other' out
  assume run: "zip_shards e s other = (res, s', other', out)"
    and changed: "s' \<noteq> s \<or> other' \<noteq> other"
  show "\<exists>other_shards r z. other = OtherSpark other_shards
            \<and> rdd_zip (rdd s) (rdd other_shards) = Inr r \<and> SparkXShards_init e r False = Inr z"
  proof (cases other)
    case (OtherSpark other_shards)
    show ?thesis
    proof (cases "num_partitions s = num_partitions other_shards")
      case False
      with run OtherSpark changed show ?thesis by (simp add: zip_shards_def)
    next
      case True
      show ?thesis
      proof (cases "rdd_zip (rdd s) (rdd other_shards)")
        case (Inl err)
        with run OtherSpark True changed show ?thesis
          by (auto simp: zip_shards_def zip_try_def)
      next
        case (Inr r)
        show ?thesis
        proof (cases "SparkXShards_init e r False")
          case (Inl err)
          with run OtherSpark True Inr changed show ?thesis
            by (auto simp: zip_shards_def zip_try_def)
        next
          case z: (Inr z)
          with OtherSpark Inr show ?thesis by simp
        qed
      qed
    qed
  next
    case (OtherRay x)
    with run changed show ?thesis by (simp add: zip_shards_def)
  next
    case (OtherObject x)
    with run changed show ?thesis by (simp add: zip_shards_def)
  qed
qed

theorem zip_failure_keeps_cache_state_witness:
  "zip_shards \<lparr>eager_mode = True, unpersist_raises = None\<rparr>
      \<lparr>rdd = [Inr [PyInt 1, PyInt 2]], rdd_is_cached = True, user_cached = False,
       eager = True, type_class_name = None, type_schema = None\<rparr>
      (OtherRay \<lparr>ray_rdd = []\<rparr>)
    = (Inl (AssertionError ''other should be a SparkXShards''),
       \<lparr>rdd = [Inr [PyInt 1, PyInt 2]], rdd_is_cached = True, user_cached = False,
        eager = True, type_class_name = None, type_schema = None\<rparr>,
       OtherRay \<lparr>ray_rdd = []\<rparr>, [])
   \<and> zip_shards \<lparr>eager_mode = True, unpersist_raises = None\<rparr>
      \<lparr>rdd = [Inr [PyInt 1, PyInt 2]], rdd_is_cached = True, user_cached = False,
       eager = True, type_class_name = None, type_schema = None\<rparr>
      (OtherSpark \<lparr>rdd = [Inr [PyInt 3], Inr [PyInt 4]], rdd_is_cached = True,
         user_cached = False, eager = True, type_class_name = None, type_schema = None\<rparr>)
    = (Inl (AssertionError ''The two SparkXShards should have the same number of partitions''),
       \<lparr>rdd = [Inr [PyInt 1, PyInt 2]], rdd_is_cached = True, user_cached = False,
        eager = True, type_class_name = None, type_schema = None\<rparr>,
       OtherSpark \<lparr>rdd = [Inr [PyInt 3], Inr [PyInt 4]], rdd_is_cached = True,
         user_cached = False, eager = True, type_class_name = None, type_schema = None\<rparr>, [])
   \<and> zip_shards \<lparr>eager_mode = True, unpersist_raises = None\<rparr>
         \<lparr>rdd = [Inr [PyInt 1, PyInt 2]], rdd_is_cached = True, user_cached = False,
          eager = True, type_class_name = None, type_schema = None\<rparr>
         (OtherSpark \<lparr>rdd = [Inr [PyInt 3, PyInt 4]], rdd_is_cached = True,
            user_cached = False, eager = True, type_class_name = None, type_schema = None\<rparr>)
       = (Inr \<lparr>rdd = [Inr [PyTuple [PyInt 1, PyInt 3], PyTuple [PyInt 2, PyInt 4]]],
               rdd_is_cached = True, user_cached = False, eager = True,
               type_class_name = None, type_schema = None\<rparr>,
          \<lparr>rdd = [Inr [PyInt 1, PyInt 2]], rdd_is_cached = False, user_cached = False,
           eager = True, type_class_name = None, type_schema = None\<rparr>,
          OtherSpark \<lparr>rdd = [Inr [PyInt 3, PyInt 4]], rdd_is_cached = False,
            user_cached = False, eager = True, type_class_name = None, type_schema = None\<rparr>,
          [])
   \<and> (\<exists>other_shards r z.
         OtherSpark \<lparr>rdd = [Inr [PyInt 3, PyInt 4]], rdd_is_cached = True,
            user_cached = False, eager = True, type_class_name = None, type_schema = None\<rparr>
           = OtherSpark other_shards
         \<and> rdd_zip
              (rdd \<lparr>rdd = [Inr [PyInt 1, PyInt 2]], rdd_is_cached = True, user_cached = False,
                    eager = True, type_class_name = None, type_schema = None\<rparr>)
              (rdd other_shards) = Inr r
         \<and> SparkXShards_init \<lparr>eager_mode = True, unpersist_raises = None\<rparr> r False = Inr z)"
proof -
  let ?e = "\<lparr>eager_mode = True, unpersist_raises = None\<rparr>"
  let ?s = "\<lparr>rdd = [Inr [PyInt 1, PyInt 2]], rdd_is_cached = True, user_cached = False,
             eager = True, type_class_name = None, type_schema = None\<rparr>"
  let ?s' = "\<lparr>rdd = [Inr [PyInt 1, PyInt 2]], rdd_is_cached = False, user_cached = False,
             eager = True, type_class_name = None, type_schema = None\<rparr>"
  let ?o2 = "\<lparr>rdd = [Inr [PyInt 3], Inr [PyInt 4]], rdd_is_cached = True,
         user_cached = False, eager = True, type_class_name = None, type_schema = None\<rparr>"
  let ?o1 = "\<lparr>rdd = [Inr [PyInt 3, PyInt 4]], rdd_is_cached = True,
              user_cached = False, eager = True, type_class_name = None, type_schema = None\<rparr>"
  let ?o1' = "\<lparr>rdd = [Inr [PyInt 3, PyInt 4]], rdd_is_cached = False,
              user_cached = False, eager = True, type_class_name = None, type_schema = None\<rparr>"
  let ?z = "\<lparr>rdd = [Inr [PyTuple [PyInt 1, PyInt 3], PyTuple [PyInt 2, PyInt 4]]],
             rdd_is_cached = True, user_cached = False, eager = True,
             type_class_name = None, type_schema = None\<rparr>"
  have a: "\<forall>other_shards. OtherRay \<lparr>ray_rdd = []\<rparr> \<noteq> OtherSpark other_shards"
    by simp
  have b: "num_partitions ?s \<noteq> num_partitions ?o2"
    by (simp add: num_partitions_def getNumPartitions_def)
  have run: "zip_shards ?e ?s (OtherSpark ?o1) = (Inr ?z, ?s', OtherSpark ?o1', [])"
    by (simp add: zip_shards_def zip_try_def rdd_zip_def zip_partition_def num_partitions_def
          getNumPartitions_def SparkXShards_init_def compute_def rdd_count_def
          private_uncache_def uncache_def is_cached_def Let_def)
  have changed: "?s' \<noteq> ?s \<or> OtherSpark ?o1' \<noteq> OtherSpark ?o1"
    by simp
  have c1: "zip_shards ?e ?s (OtherRay \<lparr>ray_rdd = []\<rparr>)
              = (Inl (AssertionError ''other should be a SparkXShards''), ?s,
                 OtherRay \<lparr>ray_rdd = []\<rparr>, [])"
    by (rule zip_failure_keeps_cache_state [THEN conjunct1, THEN mp]) (rule a)
  have c2: "zip_shards ?e ?s (OtherSpark ?o2)
              = (Inl (AssertionError
                   ''The two SparkXShards should have the same number of partitions''),
                 ?s, OtherSpark ?o2, [])"
    by (rule zip_failure_keeps_cache_state [THEN conjunct2, THEN conjunct1, THEN mp]) (rule b)
  have c3: "\<exists>other_shards r z. OtherSpark ?o1 = OtherSpark other_shards
              \<and> rdd_zip (rdd ?s) (rdd other_shards) = Inr r
              \<and> SparkXShards_init ?e r False = Inr z"
    by (rule zip_failure_keeps_cache_state
          [THEN conjunct2, THEN conjunct2, THEN spec, THEN spec, THEN spec, THEN spec,
           THEN mp, OF run, THEN mp, OF changed])
  show ?thesis
    by (rule conjI [OF c1 conjI [OF c2 conjI [OF run c3]]])
qed

section \<open>The errors of zip\<close>

text \<open>
  C3, as the code has it. \<^verbatim>\<open>zip\<close> raises an \<^verbatim>\<open>AssertionError\<close> when the two partition
  counts differ. When the counts agree but some pair of same-index partitions hold
  different numbers of elements, then in eager mode the pairing fails while the
  zipped collection is built and \<^verbatim>\<open>zip\<close> raises a \<^verbatim>\<open>ValueError\<close> in its place; with
  eager mode off (and a release that does not fail the caller) \<^verbatim>\<open>zip\<close> returns the
  zipped collection, and collecting it raises the failure of the job untranslated.
\<close>

theorem zip_errors:
  "(num_partitions s \<noteq> num_partitions other_shards \<longrightarrow>
      fst (zip_shards e s (OtherSpark other_shards)) =
        Inl (AssertionError ''The two SparkXShards should have the same number of partitions''))
   \<and> (num_partitions s = num_partitions other_shards \<and> misaligned (rdd s) (rdd other_shards) \<longrightarrow>
        (eager_mode e \<longrightarrow>
           fst (zip_shards e s (OtherSpark other_shards)) =
             Inl (ValueError
               ''The two SparkXShards should have the same number of elements in each partition''))
        \<and> (\<not> eager_mode e \<and> release_ok e \<longrightarrow>
             (\<exists>z err. fst (zip_shards e s (OtherSpark other_shards)) = Inr z
                \<and> collect z = Inl (Py4JJavaError err))))"
proof (intro conjI impI)
  assume "num_partitions s \<noteq> num_partitions other_shards"
  then show "fst (zip_shards e s (OtherSpark other_shards)) =
        Inl (AssertionError ''The two SparkXShards should have the same number of partitions'')"
    by (simp add: zip_shards_def)
next
  assume h: "num_partitions s = num_partitions other_shards \<and> misaligned (rdd s) (rdd other_shards)"
    and eager: "eager_mode e"
  from h obtain r err where r: "rdd_zip (rdd s) (rdd other_shards) = Inr r" "Inl err \<in> set r"
    using rdd_zip_misaligned [of "rdd s" "rdd other_shards"]
    by (auto simp: num_partitions_def getNumPartitions_def)
  from init_eager_failing [OF eager r(2)] obtain err' where "SparkXShards_init e r False = Inl err'"
    by blast
  with h r show "fst (zip_shards e s (OtherSpark other_shards)) =
             Inl (ValueError
               ''The two SparkXShards should have the same number of elements in each partition'')"
    by (simp add: zip_shards_def zip_try_def)
next
  assume h: "num_partitions s = num_partitions other_shards \<and> misaligned (rdd s) (rdd other_shards)"
    and lazy: "\<not> eager_mode e \<and> release_ok e"
  from h obtain r err where r: "rdd_zip (rdd s) (rdd other_shards) = Inr r" "Inl err \<in> set r"
    using rdd_zip_misaligned [of "rdd s" "rdd other_shards"]
    by (auto simp: num_partitions_def getNumPartitions_def)
  let ?z = "\<lparr>rdd = r, rdd_is_cached = True, user_cached = False,
          eager = False, type_class_name = None, type_schema = None\<rparr>"
  from lazy have z: "SparkXShards_init e r False = Inr ?z"
    by (simp add: init_lazy)
  from lazy obtain o' out1 where u1: "private_uncache e other_shards = (Inr (), o', out1)"
    using private_uncache_ok by blast
  from lazy obtain s' out2 where u2: "private_uncache e s = (Inr (), s', out2)"
    using private_uncache_ok by blast
  have "fst (zip_shards e s (OtherSpark other_shards)) = Inr ?z"
    using h r z u1 u2 by (simp add: zip_shards_def zip_try_def)
  moreover from rdd_collect_failing [OF r(2)] obtain err' where "collect ?z = Inl (Py4JJavaError err')"
    by (auto simp: collect_def)
  ultimately show "\<exists>z err. fst (zip_shards e s (OtherSpark other_shards)) = Inr z
                \<and> collect z = Inl (Py4JJavaError err)"
    by blast
qed

theorem zip_errors_witness:
  "fst (zip_shards \<lparr>eager_mode = True, unpersist_raises = None\<rparr>
      \<lparr>rdd = [Inr [PyInt 1, PyInt 2]], rdd_is_cached = True, user_cached = False,
       eager = True, type_class_name = None, type_schema = None\<rparr>
      (OtherSpark \<lparr>rdd = [Inr [PyInt 3], Inr [PyInt 4]], rdd_is_cached = True,
         user_cached = False, eager = True, type_class_name = None, type_schema = None\<rparr>))
    = Inl (AssertionError ''The two SparkXShards should have the same number of partitions'')
   \<and> fst (zip_shards \<lparr>eager_mode = True, unpersist_raises = None\<rparr>
      \<lparr>rdd = [Inr [PyInt 1, PyInt 2]], rdd_is_cached = True, user_cached = False,
       eager = True, type_class_name = None, type_schema = None\<rparr>
      (OtherSpark \<lparr>rdd = [Inr [PyInt 3]], rdd_is_cached = True,
         user_cached = False, eager = True, type_class_name = None, type_schema = None\<rparr>))
    = Inl (ValueError
        ''The two SparkXShards should have the same number of elements in each partition'')
   \<and> (\<exists>z err.
        fst (zip_shards \<lparr>eager_mode = False, unpersist_raises = None\<rparr>
          \<lparr>rdd = [Inr [PyInt 1, PyInt 2]], rdd_is_cached = True, user_cached = False,
           eager = False, type_class_name = None, type_schema = None\<rparr>
          (OtherSpark \<lparr>rdd = [Inr [PyInt 3]], rdd_is_cached = True,
             user_cached = False, eager = False, type_class_name = None,
             type_schema = None\<rparr>)) = Inr z
        \<and> collect z = Inl (Py4JJavaError err))"
proof -
  let ?e = "\<lparr>eager_mode = True, unpersist_raises = None\<rparr>"
  let ?l = "\<lparr>eager_mode = False, unpersist_raises = None\<rparr>"
  let ?s = "\<lparr>rdd = [Inr [PyInt 1, PyInt 2]], rdd_is_cached = True, user_cached = False,
             eager = True, type_class_name = None, type_schema = None\<rparr>"
  let ?o2 = "\<lparr>rdd = [Inr [PyInt 3], Inr [PyInt 4]], rdd_is_cached = True,
         user_cached = False, eager = True, type_class_name = None, type_schema = None\<rparr>"
  let ?o1 = "\<lparr>rdd = [Inr [PyInt 3]], rdd_is_cached = True,
              user_cached = False, eager = True, type_class_name = None, type_schema = None\<rparr>"
  let ?sl = "\<lparr>rdd = [Inr [PyInt 1, PyInt 2]], rdd_is_cached = True, user_cached = False,
             eager = False, type_class_name = None, type_schema = None\<rparr>"
  let ?ol = "\<lparr>rdd = [Inr [PyInt 3]], rdd_is_cached = True,
              user_cached = False, eager = False, type_class_name = None, type_schema = None\<rparr>"
  have a: "num_partitions ?s \<noteq> num_partitions ?o2"
    by (simp add: num_partitions_def getNumPartitions_def)
  have b: "num_partitions ?s = num_partitions ?o1 \<and> misaligned (rdd ?s) (rdd ?o1)"
    by (simp add: num_partitions_def getNumPartitions_def misaligned_def)
  have c: "num_partitions ?sl = num_partitions ?ol \<and> misaligned (rdd ?sl) (rdd ?ol)"
    by (simp add: num_partitions_def getNumPartitions_def misaligned_def)
  have d: "\<not> eager_mode ?l \<and> release_ok ?l"
    by (simp add: release_ok_def)
  have c1: "fst (zip_shards ?e ?s (OtherSpark ?o2))
    = Inl (AssertionError ''The two SparkXShards should have the same number of partitions'')"
    by (rule zip_errors [THEN conjunct1, THEN mp]) (rule a)
  have ee: "eager_mode ?e"
    by simp
  have c2: "fst (zip_shards ?e ?s (OtherSpark ?o1))
    = Inl (ValueError
        ''The two SparkXShards should have the same number of elements in each partition'')"
    by (rule zip_errors [THEN conjunct2, THEN mp, OF b, THEN conjunct1, THEN mp]) (rule ee)
  have c3: "\<exists>z err. fst (zip_shards ?l ?sl (OtherSpark ?ol)) = Inr z
              \<and> collect z = Inl (Py4JJavaError err)"
    by (rule zip_errors [THEN conjunct2, THEN mp, OF c, THEN conjunct2, THEN mp]) (rule d)
  show ?thesis
    by (rule conjI [OF c1 conjI [OF c2 c3]])
qed

text \<open>
  The claim as stated fails twice. The two failures are different exceptions, an
  \<^verbatim>\<open>AssertionError\<close> and a \<^verbatim>\<open>ValueError\<close>; and with eager mode off a zip of misaligned
  collections does not fail at all: it returns a collection whose \<^verbatim>\<open>collect\<close> raises
  the engine's own failure.
\<close>

theorem zip_same_error_counterexample:
  "fst (zip_shards \<lparr>eager_mode = True, unpersist_raises = None\<rparr>
      \<lparr>rdd = [Inr [PyInt 1, PyInt 2]], rdd_is_cached = True, user_cached = False,
       eager = True, type_class_name = None, type_schema = None\<rparr>
      (OtherSpark \<lparr>rdd = [Inr [PyInt 3], Inr [PyInt 4]], rdd_is_cached = True,
         user_cached = False, eager = True, type_class_name = None, type_schema = None\<rparr>))
    = Inl (AssertionError ''The two SparkXShards should have the same number of partitions'')
   \<and> fst (zip_shards \<lparr>eager_mode = True, unpersist_raises = None\<rparr>
      \<lparr>rdd = [Inr [PyInt 1, PyInt 2]], rdd_is_cached = True, user_cached = False,
       eager = True, type_class_name = None, type_schema = None\<rparr>
      (OtherSpark \<lparr>rdd = [Inr [PyInt 3]], rdd_is_cached = True,
         user_cached = False, eager = True, type_class_name = None, type_schema = None\<rparr>))
    = Inl (ValueError
        ''The two SparkXShards should have the same number of elements in each partition'')
   \<and> fst (zip_shards \<lparr>eager_mode = False, unpersist_raises = None\<rparr>
          \<lparr>rdd = [Inr [PyInt 1, PyInt 2]], rdd_is_cached = True, user_cached = False,
           eager = False, type_class_name = None, type_schema = None\<rparr>
          (OtherSpark \<lparr>rdd = [Inr [PyInt 3]], rdd_is_cached = True,
             user_cached = False, eager = False, type_class_name = None,
             type_schema = None\<rparr>))
    = Inr \<lparr>rdd = [Inl (SparkException
                  ''Can only zip RDDs with same number of elements in each partition'')],
           rdd_is_cached = True, user_cached = False, eager = False,
           type_class_name = None, type_schema = None\<rparr>
   \<and> collect \<lparr>rdd = [Inl (SparkException
                  ''Can only zip RDDs with same number of elements in each partition'')],
           rdd_is_cached = True, user_cached = False, eager = False,
           type_class_name = None, type_schema = None\<rparr>
    = Inl (Py4JJavaError (SparkException
             ''Can only zip RDDs with same number of elements in each partition''))"
  by (simp add: zip_shards_def zip_try_def rdd_zip_def zip_partition_def num_partitions_def
        getNumPartitions_def SparkXShards_init_def compute_def rdd_count_def rdd_collect_def
        collect_def private_uncache_def uncache_def is_cached_def Let_def)

section \<open>Splitting a collection of sequences\<close>

text \<open>
  C4. For a collection whose partitions all compute and that holds at least one
  element, \<^verbatim>\<open>split\<close> takes the length of every element of every partition (a list
  or tuple counts its items, anything else counts 1). If two elements differ in
  length it raises \<^verbatim>\<open>Exception\<close>. If all have the length \<open>L\<close> and \<open>L > 1\<close>, it
  returns \<open>L\<close> collections (the release of the receiver's cache not failing the
  caller), the \<open>i\<close>-th of which has the receiver's partitioning and holds
  \<^verbatim>\<open>element[i]\<close> for every element, in order. Otherwise it returns the list of the
  receiver itself and changes nothing.
\<close>

theorem split_shards_spec:
  assumes healthy: "rdd s = map Inr ps" and nonempty: "concat ps \<noteq> []"
  shows "((\<exists>x\<in>set (concat ps). \<exists>y\<in>set (concat ps). split_length x \<noteq> split_length y) \<longrightarrow>
            split_shards e s =
              (Inl (PyException
                 ''Cannot split this XShards because its partitions have different split length''),
               s, []))
       \<and> (\<forall>L. (\<forall>x\<in>set (concat ps). split_length x = L) \<longrightarrow>
            (1 < L \<and> release_ok e \<longrightarrow>
               (\<exists>shs s' out. split_shards e s = (Inr shs, s', out) \<and> length shs = L
                  \<and> (\<forall>i<L. num_partitions (shs ! i) = num_partitions s
                        \<and> (\<exists>ys. collect (shs ! i) = Inr ys
                              \<and> map (get_data i) (concat ps) = map Inr ys))))
            \<and> (\<not> 1 < L \<longrightarrow> split_shards e s = (Inr [s], s, [])))"
proof -
  let ?xs = "concat ps"
  let ?lens = "map split_length ?xs"
  from nonempty obtain x0 rest where xs: "?xs = x0 # rest"
    by (cases ?xs) auto
  then have lens: "?lens = split_length x0 # map split_length rest"
    by simp
  have coll: "rdd_collect (rdd_map (\<lambda>data. Inr (split_length data)) (rdd s)) = Inr ?lens"
    using healthy by (simp add: split_lengths_collect)
  have x0: "x0 \<in> set ?xs" using xs by simp
  have part1: "split_shards e s =
              (Inl (PyException
                 ''Cannot split this XShards because its partitions have different split length''),
               s, [])"
    if diff: "\<exists>x\<in>set ?xs. \<exists>y\<in>set ?xs. split_length x \<noteq> split_length y"
  proof -
    from diff have "\<not> (\<forall>l\<in>set ?lens. l = split_length x0)"
      by fastforce
    then have "count_list ?lens (split_length x0) \<noteq> length ?lens"
      using count_list_eq_length [of ?lens "split_length x0"] by blast
    with coll lens show ?thesis
      by (simp add: split_shards_def del: count_list.simps)
  qed
  have part2: "\<exists>shs s' out. split_shards e s = (Inr shs, s', out) \<and> length shs = L
                  \<and> (\<forall>i<L. num_partitions (shs ! i) = num_partitions s
                        \<and> (\<exists>ys. collect (shs ! i) = Inr ys
                              \<and> map (get_data i) ?xs = map Inr ys))"
    if same: "\<forall>x\<in>set ?xs. split_length x = L" and big: "1 < L" and rel: "release_ok e" for L
  proof -
    from same x0 have l0: "split_length x0 = L" by blast
    from same have "\<forall>l\<in>set ?lens. l = split_length x0"
      using l0 by simp
    then have cnt: "count_list ?lens (split_length x0) = length ?lens"
      using count_list_eq_length [of ?lens "split_length x0"] by blast
    let ?g = "\<lambda>i x. seq_items x ! i"
    let ?t = "\<lambda>i. \<lparr>rdd = map Inr (map (map (?g i)) ps), rdd_is_cached = True,
                     user_cached = False, eager = eager_mode e, type_class_name = None,
                     type_schema = None\<rparr>"
    have gd: "get_data i x = Inr (?g i x)" if "i < L" "x \<in> set ?xs" for i x
      using that same big by (intro get_data_seq) auto
    have mp: "rdd_map (get_data i) (rdd s) = map Inr (map (map (?g i)) ps)" if "i < L" for i
      unfolding healthy by (rule rdd_map_healthy) (rule gd [OF that])
    have ini: "SparkXShards_init e (rdd_map (get_data i) (rdd s)) False = Inr (?t i)"
      if "i \<in> set [0..<L]" for i
      using that by (simp add: mp init_healthy del: map_map)
    have fe: "first_error (map (\<lambda>i. SparkXShards_init e (rdd_map (get_data i) (rdd s)) False) [0..<L])
                = Inr (map ?t [0..<L])"
      by (rule first_error_total) (rule ini)
    from private_uncache_ok [OF rel] obtain s' out where u: "private_uncache e s = (Inr (), s', out)"
      by blast
    have run: "split_shards e s = (Inr (map ?t [0..<L]), s', out)"
      using coll lens cnt l0 big fe u by (simp add: split_shards_def del: count_list.simps)
    have each: "num_partitions (map ?t [0..<L] ! i) = num_partitions s
                \<and> (\<exists>ys. collect (map ?t [0..<L] ! i) = Inr ys \<and> map (get_data i) ?xs = map Inr ys)"
      if i: "i < L" for i
    proof -
      have "map (get_data i) ?xs = map Inr (map (?g i) ?xs)"
        using gd [OF i] by simp
      moreover have "collect (?t i) = Inr (map (?g i) ?xs)"
        by (simp only: collect_def rdd_collect_healthy map_concat SparkXShards.simps)
      moreover have "num_partitions (?t i) = num_partitions s"
        using healthy by (simp add: num_partitions_def getNumPartitions_def)
      ultimately show ?thesis using i by simp
    qed
    from run each show ?thesis by auto
  qed
  have part3: "split_shards e s = (Inr [s], s, [])"
    if same: "\<forall>x\<in>set ?xs. split_length x = L" and small: "\<not> 1 < L" for L
  proof -
    from same x0 have l0: "split_length x0 = L" by blast
    from same have "\<forall>l\<in>set ?lens. l = split_length x0"
      using l0 by simp
    then have cnt: "count_list ?lens (split_length x0) = length ?lens"
      using count_list_eq_length [of ?lens "split_length x0"] by blast
    show ?thesis
      using coll lens cnt l0 small by (simp add: split_shards_def del: count_list.simps)
  qed
  from part1 part2 part3 show ?thesis
    by blast
qed

theorem split_shards_spec_witness:
  "split_shards \<lparr>eager_mode = True, unpersist_raises = None\<rparr>
      \<lparr>rdd = [Inr [PyList [PyInt 1, PyInt 2]], Inr [PyList [PyInt 3]]], rdd_is_cached = True, user_cached = False,
        eager = True, type_class_name = None, type_schema = None\<rparr>
    = (Inl (PyException
          ''Cannot split this XShards because its partitions have different split length''),
       \<lparr>rdd = [Inr [PyList [PyInt 1, PyInt 2]], Inr [PyList [PyInt 3]]], rdd_is_cached = True, user_cached = False,
        eager = True, type_class_name = None, type_schema = None\<rparr>, [])
   \<and> (\<exists>shs s' out.
         split_shards \<lparr>eager_mode = True, unpersist_raises = None\<rparr>
           \<lparr>rdd = [Inr [PyList [PyInt 1, PyInt 2]], Inr [PyTuple [PyInt 3, PyInt 4]]], rdd_is_cached = True, user_cached = False,
        eager = True, type_class_name = None, type_schema = None\<rparr>
         = (Inr shs, s', out)
         \<and> length shs = 2
         \<and> (\<forall>i<2. num_partitions (shs ! i)
                    = num_partitions
                        \<lparr>rdd = [Inr [PyList [PyInt 1, PyInt 2]], Inr [PyTuple [PyInt 3, PyInt 4]]], rdd_is_cached = True, user_cached = False,
        eager = True, type_class_name = None, type_schema = None\<rparr>
                  \<and> (\<exists>ys. collect (shs ! i) = Inr ys
                        \<and> map (get_data i) (concat [[PyList [PyInt 1, PyInt 2]], [PyTuple [PyInt 3, PyInt 4]]])
                            = map Inr ys)))
   \<and> split_shards \<lparr>eager_mode = True, unpersist_raises = None\<rparr>
      \<lparr>rdd = [Inr [PyInt 7, PyList [PyInt 1]]], rdd_is_cached = True, user_cached = False,
        eager = True, type_class_name = None, type_schema = None\<rparr>
    = (Inr [\<lparr>rdd = [Inr [PyInt 7, PyList [PyInt 1]]], rdd_is_cached = True, user_cached = False,
        eager = True, type_class_name = None, type_schema = None\<rparr>],
       \<lparr>rdd = [Inr [PyInt 7, PyList [PyInt 1]]], rdd_is_cached = True, user_cached = False,
        eager = True, type_class_name = None, type_schema = None\<rparr>, [])"
proof -
  let ?e = "\<lparr>eager_mode = True, unpersist_raises = None\<rparr>"
  let ?s1 = "\<lparr>rdd = [Inr [PyList [PyInt 1, PyInt 2]], Inr [PyList [PyInt 3]]], rdd_is_cached = True, user_cached = False,
        eager = True, type_class_name = None, type_schema = None\<rparr>"
  let ?s2 = "\<lparr>rdd = [Inr [PyList [PyInt 1, PyInt 2]], Inr [PyTuple [PyInt 3, PyInt 4]]], rdd_is_cached = True, user_cached = False,
        eager = True, type_class_name = None, type_schema = None\<rparr>"
  let ?s3 = "\<lparr>rdd = [Inr [PyInt 7, PyList [PyInt 1]]], rdd_is_cached = True, user_cached = False,
        eager = True, type_class_name = None, type_schema = None\<rparr>"
  let ?p1 = "[[PyList [PyInt 1, PyInt 2]], [PyList [PyInt 3]]]"
  let ?p2 = "[[PyList [PyInt 1, PyInt 2]], [PyTuple [PyInt 3, PyInt 4]]]"
  let ?p3 = "[[PyInt 7, PyList [PyInt 1]]]"
  have h1: "rdd ?s1 = map Inr ?p1" "concat ?p1 \<noteq> []" by simp_all
  have h2: "rdd ?s2 = map Inr ?p2" "concat ?p2 \<noteq> []" by simp_all
  have h3: "rdd ?s3 = map Inr ?p3" "concat ?p3 \<noteq> []" by simp_all
  have d1: "\<exists>x\<in>set (concat ?p1). \<exists>y\<in>set (concat ?p1). split_length x \<noteq> split_length y"
    by auto
  have d2: "\<forall>x\<in>set (concat ?p2). split_length x = 2" by simp
  have d3: "\<forall>x\<in>set (concat ?p3). split_length x = 1" by simp
  have r: "1 < (2::nat) \<and> release_ok ?e" by (simp add: release_ok_def)
  have n: "\<not> 1 < (1::nat)" by simp
  have c1: "split_shards ?e ?s1 = (Inl (PyException ''Cannot split this XShards because its partitions have different split length''), ?s1, [])"
    by (rule split_shards_spec [OF h1, THEN conjunct1, THEN mp]) (rule d1)
  have c2: "\<exists>shs s' out. split_shards ?e ?s2 = (Inr shs, s', out) \<and> length shs = 2
                  \<and> (\<forall>i<2. num_partitions (shs ! i) = num_partitions ?s2
                        \<and> (\<exists>ys. collect (shs ! i) = Inr ys
                              \<and> map (get_data i) (concat ?p2) = map Inr ys))"
    by (rule split_shards_spec
          [OF h2, THEN conjunct2, THEN spec, THEN mp, OF d2, THEN conjunct1, THEN mp])
       (rule r)
  have c3: "split_shards ?e ?s3 = (Inr [?s3], ?s3, [])"
    by (rule split_shards_spec
          [OF h3, THEN conjunct2, THEN spec, THEN mp, OF d3, THEN conjunct2, THEN mp])
       (rule n)
  show ?thesis
    by (rule conjI [OF c1 conjI [OF c2 c3]])
qed

section \<open>What each partition holds after a table collection is spread out\<close>

text \<open>
  C5, as the code has it. When \<^verbatim>\<open>repartition(n)\<close> raises the partition count of a table
  collection, the call succeeds, the result has \<open>n\<close> partitions, and partition \<open>i\<close>
  holds exactly one table, rebuilt with the cached columns and dtypes from the rows
  of bucket \<open>i\<close>, when that bucket received a row; a bucket that received no row
  leaves its partition without any table, and that is not an error.
\<close>

theorem repartition_table_buckets:
  assumes h: "rdd s = map Inr ps" and t: "table_collection cols dts ps" and ok: "type_cache_ok s"
      and n: "length ps < n" and rel: "release_ok e"
  shows "\<exists>t s' out. repartition e sh n s = (Inr t, s', out) \<and> num_partitions t = n
           \<and> (\<forall>i<n. rdd t ! i =
                 (if filter (\<lambda>row. bucket_of sh n row = i) (all_rows ps) = [] then Inr []
                  else Inr [DataFrame cols dts
                              (filter (\<lambda>row. bucket_of sh n row = i) (all_rows ps))]))"
proof -
  let ?B = "\<lambda>i. filter (\<lambda>row. bucket_of sh n row = i) (all_rows ps)"
  let ?t = "\<lparr>rdd = map Inr (map (\<lambda>i. table_bucket cols dts (?B i)) [0..<n]),
             rdd_is_cached = True, user_cached = False,
             eager = eager_mode e, type_class_name = None, type_schema = None\<rparr>"
  from repartition_table_increase [OF h t ok n rel] obtain s' out
    where run: "repartition e sh n s = (Inr ?t, s', out)"
    by blast
  have "num_partitions ?t = n"
    by (simp add: num_partitions_def getNumPartitions_def)
  moreover have "rdd ?t ! i = (if ?B i = [] then Inr [] else Inr [DataFrame cols dts (?B i)])"
    if "i < n" for i
    using that by (simp add: table_bucket_def)
  ultimately show ?thesis
    using run by blast
qed

theorem repartition_table_buckets_witness:
  "\<exists>t s' out.
      repartition \<lparr>eager_mode = True, unpersist_raises = None\<rparr>
        \<lparr>portable_hash = (\<lambda>k. k), shuffle_target = (\<lambda>j. j)\<rparr> 2
        \<lparr>rdd = [Inr [DataFrame [''a'', ''b''] [''int64'', ''int64''] [[1, 2], [3, 4], [5, 6]]]],
       rdd_is_cached = True, user_cached = False, eager = True,
       type_class_name = None, type_schema = None\<rparr>
      = (Inr t, s', out)
      \<and> num_partitions t = 2
      \<and> (\<forall>i<2. rdd t ! i =
            (if filter (\<lambda>row. bucket_of \<lparr>portable_hash = (\<lambda>k. k), shuffle_target = (\<lambda>j. j)\<rparr> 2 row = i)
                  (all_rows [[DataFrame [''a'', ''b''] [''int64'', ''int64''] [[1, 2], [3, 4], [5, 6]]]]) = []
             then Inr []
             else Inr [DataFrame [''a'', ''b''] [''int64'', ''int64'']
                         (filter (\<lambda>row. bucket_of \<lparr>portable_hash = (\<lambda>k. k), shuffle_target = (\<lambda>j. j)\<rparr> 2 row = i)
                            (all_rows [[DataFrame [''a'', ''b''] [''int64'', ''int64''] [[1, 2], [3, 4], [5, 6]]]]))]))"
proof -
  let ?s = "\<lparr>rdd = [Inr [DataFrame [''a'', ''b''] [''int64'', ''int64''] [[1, 2], [3, 4], [5, 6]]]],
       rdd_is_cached = True, user_cached = False, eager = True,
       type_class_name = None, type_schema = None\<rparr>"
  let ?ps = "[[DataFrame [''a'', ''b''] [''int64'', ''int64''] [[1, 2], [3, 4], [5, 6]]]]"
  have h: "rdd ?s = map Inr ?ps" by simp
  have t: "table_collection [''a'', ''b''] [''int64'', ''int64''] ?ps"
    by (simp add: table_collection_def table_shard_def)
  have ok: "type_cache_ok ?s" by (simp add: type_cache_ok_def)
  have n: "length ?ps < 2" by simp
  have rel: "release_ok \<lparr>eager_mode = True, unpersist_raises = None\<rparr>" by (simp add: release_ok_def)
  show ?thesis
    by (rule repartition_table_buckets [OF h t ok n rel])
qed

text \<open>
  The claim as stated fails: a table with the single row \<open>[1, 2]\<close>, spread over two
  partitions, leaves partition 0 without any table (the bucket of key 1 is 1).
\<close>

theorem repartition_empty_bucket_counterexample:
  "repartition \<lparr>eager_mode = True, unpersist_raises = None\<rparr>
      \<lparr>portable_hash = (\<lambda>k. k), shuffle_target = (\<lambda>j. j)\<rparr> 2
      \<lparr>rdd = [Inr [DataFrame [''a'', ''b''] [''int64'', ''int64''] [[1, 2]]]],
       rdd_is_cached = True, user_cached = False, eager = True,
       type_class_name = None, type_schema = None\<rparr>
   = (Inr \<lparr>rdd = [Inr [], Inr [DataFrame [''a'', ''b''] [''int64'', ''int64''] [[1, 2]]]],
       rdd_is_cached = True, user_cached = False, eager = True,
       type_class_name = None, type_schema = None\<rparr>,
      \<lparr>rdd = [Inr [DataFrame [''a'', ''b''] [''int64'', ''int64''] [[1, 2]]]],
       rdd_is_cached = False, user_cached = False, eager = True,
       type_class_name = Some ''pandas.core.frame.DataFrame'', type_schema = Some ([''a'', ''b''], [''int64'', ''int64''])\<rparr>, [])
   \<and> rdd \<lparr>rdd = [Inr [], Inr [DataFrame [''a'', ''b''] [''int64'', ''int64''] [[1, 2]]]],
       rdd_is_cached = True, user_cached = False, eager = True,
       type_class_name = None, type_schema = None\<rparr> ! 0 = Inr []"
  by code_simp

section \<open>Rows with the same first column go to the same partition\<close>

text \<open>
  C9. When \<^verbatim>\<open>repartition(n)\<close> raises the partition count of a table collection, a row
  lands in the partition numbered by the hash of the value in its first column,
  modulo \<open>n\<close>; so two rows with equal values in the first column are in the same
  output partition, and in no other.
\<close>

theorem repartition_rows_by_first_column:
  assumes h: "rdd s = map Inr ps" and t: "table_collection cols dts ps" and ok: "type_cache_ok s"
      and n: "length ps < n" and rel: "release_ok e"
      and r1: "r1 \<in> set (all_rows ps)" and r2: "r2 \<in> set (all_rows ps)" and key: "hd r1 = hd r2"
  shows "\<exists>t s' out. repartition e sh n s = (Inr t, s', out)
           \<and> (\<exists>i<n. r1 \<in> set (partition_rows t i) \<and> r2 \<in> set (partition_rows t i))
           \<and> (\<forall>i<n. r1 \<in> set (partition_rows t i)
                      \<longleftrightarrow> nat (portable_hash sh (hd r1) mod int n) = i)
           \<and> (\<forall>i<n. r1 \<in> set (partition_rows t i) \<longleftrightarrow> r2 \<in> set (partition_rows t i))"
proof -
  let ?B = "\<lambda>i. filter (\<lambda>row. bucket_of sh n row = i) (all_rows ps)"
  let ?t = "\<lparr>rdd = map Inr (map (\<lambda>i. table_bucket cols dts (?B i)) [0..<n]),
             rdd_is_cached = True, user_cached = False,
             eager = eager_mode e, type_class_name = None, type_schema = None\<rparr>"
  from repartition_table_increase [OF h t ok n rel] obtain s' out
    where run: "repartition e sh n s = (Inr ?t, s', out)"
    by blast
  have rows: "partition_rows ?t i = ?B i" if "i < n" for i
    using that by (simp add: partition_rows_def table_bucket_def)
  from n have pos: "0 < n" by simp
  have same: "bucket_of sh n r1 = bucket_of sh n r2"
    using key by (simp add: bucket_of_def)
  have below: "bucket_of sh n r1 < n"
    using pos by (simp add: bucket_of_def nat_less_iff)
  have a: "\<exists>i<n. r1 \<in> set (partition_rows ?t i) \<and> r2 \<in> set (partition_rows ?t i)"
    using below r1 r2 same rows [OF below] by auto
  have b: "\<forall>i<n. r1 \<in> set (partition_rows ?t i) \<longleftrightarrow> nat (portable_hash sh (hd r1) mod int n) = i"
    using r1 rows by (auto simp: bucket_of_def)
  have c: "\<forall>i<n. r1 \<in> set (partition_rows ?t i) \<longleftrightarrow> r2 \<in> set (partition_rows ?t i)"
    using r1 r2 same rows by auto
  from run a b c show ?thesis
    by blast
qed

theorem repartition_rows_by_first_column_witness:
  "\<exists>t s' out.
      repartition \<lparr>eager_mode = True, unpersist_raises = None\<rparr>
        \<lparr>portable_hash = (\<lambda>k. k), shuffle_target = (\<lambda>j. j)\<rparr> 2
        \<lparr>rdd = [Inr [DataFrame [''a'', ''b''] [''int64'', ''int64''] [[1, 2], [3, 4], [1, 9]]]],
       rdd_is_cached = True, user_cached = False, eager = True,
       type_class_name = None, type_schema = None\<rparr>
      = (Inr t, s', out)
      \<and> (\<exists>i<2. [1, 2] \<in> set (partition_rows t i) \<and> [1, 9] \<in> set (partition_rows t i))
      \<and> (\<forall>i<2. [1, 2] \<in> set (partition_rows t i)
                 \<longleftrightarrow> nat (portable_hash \<lparr>portable_hash = (\<lambda>k. k), shuffle_target = (\<lambda>j. j)\<rparr>
                           (hd [1, 2]) mod int 2) = i)
      \<and> (\<forall>i<2. [1, 2] \<in> set (partition_rows t i) \<longleftrightarrow> [1, 9] \<in> set (partition_rows t i))"
proof -
  let ?s = "\<lparr>rdd = [Inr [DataFrame [''a'', ''b''] [''int64'', ''int64''] [[1, 2], [3, 4], [1, 9]]]],
       rdd_is_cached = True, user_cached = False, eager = True,
       type_class_name = None, type_schema = None\<rparr>"
  let ?ps = "[[DataFrame [''a'', ''b''] [''int64'', ''int64''] [[1, 2], [3, 4], [1, 9]]]]"
  have h: "rdd ?s = map Inr ?ps" by simp
  have t: "table_collection [''a'', ''b''] [''int64'', ''int64''] ?ps"
    by (simp add: table_collection_def table_shard_def)
  have ok: "type_cache_ok ?s" by (simp add: type_cache_ok_def)
  have n: "length ?ps < 2" by simp
  have rel: "release_ok \<lparr>eager_mode = True, unpersist_raises = None\<rparr>" by (simp add: release_ok_def)
  have r1: "[1, 2] \<in> set (all_rows ?ps)" by (simp add: all_rows_def)
  have r2: "[1, 9] \<in> set (all_rows ?ps)" by (simp add: all_rows_def)
  have key: "hd [1, 2 :: int] = hd [1, 9]" by simp
  show ?thesis
    by (rule repartition_rows_by_first_column [OF h t ok n rel r1 r2 key])
qed

section \<open>Repartitioning keeps the elements\<close>

text \<open>
  Take a well-formed collection whose partitions compute and whose cached type
  information, if any, is right, a target count \<open>n > 0\<close>, and an engine whose cache
  release does not fail the caller. Then \<^verbatim>\<open>repartition(n)\<close> returns a collection with
  exactly \<open>n\<close> partitions, both collections can be collected, and the elements held
  by the shards of the result (rows of tables, items of lists, sub-arrays along the
  leading axis, and a shard of any other kind itself) are, as a multiset, the
  elements held by the shards of the receiver. This covers the four kinds:
  \<open>well_formed\<close> reads the kind off the first shard, as \<^verbatim>\<open>repartition\<close> does.
\<close>

theorem repartition_preserves_elements:
  assumes h: "rdd s = map Inr ps" and wf: "well_formed ps" and ok: "type_cache_ok s"
      and pos: "0 < n" and rel: "release_ok e"
  shows "\<exists>t s' out xs ys. repartition e sh n s = (Inr t, s', out)
           \<and> num_partitions t = n
           \<and> collect s = Inr xs \<and> collect t = Inr ys
           \<and> mset (concat (map shard_elements ys)) = mset (concat (map shard_elements xs))"
proof -
  from repartition_core [OF h wf ok pos rel] obtain qs s' out
    where run: "repartition e sh n s =
           (Inr \<lparr>rdd = map Inr qs, rdd_is_cached = True, user_cached = False,
                 eager = eager_mode e, type_class_name = None, type_schema = None\<rparr>, s', out)"
      and len: "length qs = n"
      and content: "mset (concat (map shard_elements (concat qs)))
                      = mset (concat (map shard_elements (concat ps)))"
    by blast
  let ?t = "\<lparr>rdd = map Inr qs, rdd_is_cached = True, user_cached = False,
                 eager = eager_mode e, type_class_name = None, type_schema = None\<rparr>"
  have "num_partitions ?t = n"
    using len by (simp add: num_partitions_def getNumPartitions_def)
  moreover have "collect s = Inr (concat ps)"
    by (simp only: collect_def h rdd_collect_healthy)
  moreover have "collect ?t = Inr (concat qs)"
    by (simp only: collect_def SparkXShards.simps rdd_collect_healthy)
  ultimately show ?thesis
    using run content by blast
qed

theorem repartition_preserves_elements_example:
  "\<exists>t s' out xs ys.
      repartition \<lparr>eager_mode = True, unpersist_raises = None\<rparr>
        \<lparr>portable_hash = (\<lambda>k. k), shuffle_target = (\<lambda>j. j)\<rparr> 3
        \<lparr>rdd = [Inr [PyList [PyInt 1, PyInt 2, PyInt 3]], Inr [PyList [PyInt 4]]],
       rdd_is_cached = True, user_cached = False, eager = True,
       type_class_name = None, type_schema = None\<rparr>
      = (Inr t, s', out)
      \<and> num_partitions t = 3
      \<and> collect
          \<lparr>rdd = [Inr [PyList [PyInt 1, PyInt 2, PyInt 3]], Inr [PyList [PyInt 4]]],
       rdd_is_cached = True, user_cached = False, eager = True,
       type_class_name = None, type_schema = None\<rparr> = Inr xs
      \<and> collect t = Inr ys
      \<and> mset (concat (map shard_elements ys)) = mset (concat (map shard_elements xs))"
proof -
  let ?s = "\<lparr>rdd = [Inr [PyList [PyInt 1, PyInt 2, PyInt 3]], Inr [PyList [PyInt 4]]],
       rdd_is_cached = True, user_cached = False, eager = True,
       type_class_name = None, type_schema = None\<rparr>"
  let ?ps = "[[PyList [PyInt 1, PyInt 2, PyInt 3]], [PyList [PyInt 4]]]"
  have h: "rdd ?s = map Inr ?ps" by simp
  have wf: "well_formed ?ps"
    by (simp add: well_formed_def list_collection_def)
  have ok: "type_cache_ok ?s" by (simp add: type_cache_ok_def)
  have pos: "0 < (3::nat)" by simp
  have rel: "release_ok \<lparr>eager_mode = True, unpersist_raises = None\<rparr>" by (simp add: release_ok_def)
  show ?thesis
    by (rule repartition_preserves_elements [OF h wf ok pos rel])
qed

text \<open>
  C1. \<^verbatim>\<open>repartition(n)\<close> does not keep the content of every collection. Going down to
  \<open>n\<close> partitions, the list path reduces and the array path concatenates whatever a
  merged partition holds, and both raise when it holds nothing; the table path asks
  \<^verbatim>\<open>len(dfs) > 0\<close> first. Three partitions of which only the first holds a shard,
  merged into two: the list collection fails with \<^verbatim>\<open>TypeError\<close> from \<^verbatim>\<open>reduce\<close>, the
  array collection with \<^verbatim>\<open>ValueError\<close> from \<^verbatim>\<open>np.concatenate\<close>, both inside the job
  that the constructor runs, and the table collection is repartitioned.
\<close>

theorem repartition_empty_partition_raises:
  "repartition \<lparr>eager_mode = True, unpersist_raises = None\<rparr>
      \<lparr>portable_hash = (\<lambda>k. k), shuffle_target = (\<lambda>j. j)\<rparr> 2
      \<lparr>rdd = [Inr [PyList [PyInt 1]], Inr [], Inr []],
       rdd_is_cached = True, user_cached = False, eager = True,
       type_class_name = None, type_schema = None\<rparr>
    = (Inl (Py4JJavaError (TypeError ''reduce() of empty sequence with no initial value'')),
       \<lparr>rdd = [Inr [PyList [PyInt 1]], Inr [], Inr []],
        rdd_is_cached = True, user_cached = False, eager = True,
        type_class_name = Some ''list'', type_schema = None\<rparr>, [])
   \<and> repartition \<lparr>eager_mode = True, unpersist_raises = None\<rparr>
      \<lparr>portable_hash = (\<lambda>k. k), shuffle_target = (\<lambda>j. j)\<rparr> 2
      \<lparr>rdd = [Inr [NdArray [1, 3] ''int64'' [1, 2, 3]], Inr [], Inr []],
       rdd_is_cached = True, user_cached = False, eager = True,
       type_class_name = None, type_schema = None\<rparr>
    = (Inl (Py4JJavaError (ValueError ''need at least one array to concatenate'')),
       \<lparr>rdd = [Inr [NdArray [1, 3] ''int64'' [1, 2, 3]], Inr [], Inr []],
        rdd_is_cached = True, user_cached = False, eager = True,
        type_class_name = Some ''numpy.ndarray'', type_schema = None\<rparr>, [])
   \<and> repartition \<lparr>eager_mode = True, unpersist_raises = None\<rparr>
      \<lparr>portable_hash = (\<lambda>k. k), shuffle_target = (\<lambda>j. j)\<rparr> 2
      \<lparr>rdd = [Inr [DataFrame [''a''] [''int64''] [[1]]], Inr [], Inr []],
       rdd_is_cached = True, user_cached = False, eager = True,
       type_class_name = None, type_schema = None\<rparr>
    = (Inr \<lparr>rdd = [Inr [DataFrame [''a''] [''int64''] [[1]]], Inr []],
            rdd_is_cached = True, user_cached = False, eager = True,
            type_class_name = None, type_schema = None\<rparr>,
       \<lparr>rdd = [Inr [DataFrame [''a''] [''int64''] [[1]]], Inr [], Inr []],
        rdd_is_cached = False, user_cached = False, eager = True,
        type_class_name = Some ''pandas.core.frame.DataFrame'', type_schema = None\<rparr>, [])"
  by code_simp

section \<open>Handing a collection over twice\<close>

text \<open>
  \<^verbatim>\<open>to_ray\<close> fixes one identifier per partition index before any task runs
  (\<open>object_ids_for\<close> depends on the random source and the partition count only), and
  the references it returns carry exactly these identifiers. When a handoff has
  succeeded, a second handoff of the same source with the same identifiers succeeds
  too, on whatever nodes its tasks run, refers to the same identifiers, and leaves
  the store exactly as it was, the count of writes included.
\<close>

lemma handoff_writes_once:
  assumes first: "to_ray renv e s store = (Inr x1, s1, store1, out1)"
      and same: "from_random renv' = from_random renv"
  shows "\<exists>x2 s2 out2.
           to_ray renv' e' s1 store1 = (Inr x2, s2, store1, out2)
           \<and> mset (map object_id (ray_rdd x2)) = mset (map object_id (ray_rdd x1))
           \<and> mset (map object_id (ray_rdd x1)) = mset (object_ids_for renv s)
           \<and> (\<forall>p\<in>set (ray_rdd x1). contains store1 (object_id p))"
proof -
  let ?ids = "object_ids_for renv s"
  obtain r1 st1 where run: "run_tasks renv ?ids 0 (rdd s) store = (r1, st1)"
    by (cases "run_tasks renv ?ids 0 (rdd s) store") auto
  from first run obtain rs where r1: "r1 = Inr rs"
    by (cases r1) (simp_all add: to_ray_def Let_def)
  obtain u sa oa where unc: "uncache e s = (u, sa, oa)"
    by (cases "uncache e s") auto
  from first run r1 unc have u: "u = Inr ()"
    by (cases u) (simp_all add: to_ray_def Let_def)
  from first run r1 unc u have res: "s1 = sa" "store1 = st1"
    and x: "x1 = \<lparr>ray_rdd = map (\<lambda>id_ip. \<lparr>object_id = fst id_ip, node_ip = snd id_ip,
                                     object_store_address = store_address renv\<rparr>)
                         (sort_key snd rs)\<rparr>"
    by (simp_all add: to_ray_def Let_def)
  from uncache_result [OF unc] res have s1: "rdd s1 = rdd s" "\<not> rdd_is_cached s1"
    by simp_all
  then have ids': "object_ids_for renv' s1 = ?ids"
    by (simp add: object_ids_for_def same)
  from run r1 res have run1: "run_tasks renv ?ids 0 (rdd s) store = (Inr rs, store1)"
    by simp
  from run_tasks_again [OF run1, of renv'] obtain rs'
    where again: "run_tasks renv' ?ids 0 (rdd s) store1 = (Inr rs', store1)"
      "map fst rs' = map fst rs" "map fst rs = take (length (rdd s)) (drop 0 ?ids)"
      "\<forall>p\<in>set rs. contains store1 (fst p)"
    by blast
  define x2 where "x2 = \<lparr>ray_rdd = map (\<lambda>id_ip. \<lparr>object_id = fst id_ip, node_ip = snd id_ip,
                                     object_store_address = store_address renv'\<rparr>)
                         (sort_key snd rs')\<rparr>"
  from again(1) s1 ids' uncache_released [OF s1(2), of e']
  have second: "to_ray renv' e' s1 store1 = (Inr x2, s1\<lparr>user_cached := False\<rparr>, store1, [])"
    by (simp add: to_ray_def Let_def x2_def)
  have o1: "map object_id (ray_rdd x1) = map fst (sort_key snd rs)"
    by (simp add: x comp_def)
  have o2: "map object_id (ray_rdd x2) = map fst (sort_key snd rs')"
    by (simp add: x2_def comp_def)
  have m1: "mset (map object_id (ray_rdd x1)) = mset (map fst rs)"
    unfolding o1 by (metis mset_map mset_sort)
  have m2: "mset (map object_id (ray_rdd x2)) = mset (map fst rs')"
    unfolding o2 by (metis mset_map mset_sort)
  have "map fst rs = ?ids"
    using again(3) by (simp add: object_ids_for_def getNumPartitions_def)
  with m1 have ids: "mset (map object_id (ray_rdd x1)) = mset ?ids"
    by simp
  have held: "\<forall>p\<in>set (ray_rdd x1). contains store1 (object_id p)"
    using again(4) by (auto simp: x)
  from m1 m2 again(2) have "mset (map object_id (ray_rdd x2)) = mset (map object_id (ray_rdd x1))"
    by simp
  with second ids held show ?thesis
    by blast
qed

text \<open>
  C2. The identifiers are fixed beforehand, a task skips the write when the store
  holds its identifier and otherwise writes once and checks the identifier handed
  back, and a second handoff writes nothing: two partitions, two writes, after the
  first attempt and after the second. But the collection \<^verbatim>\<open>to_ray\<close> returns cannot be
  collected, on either attempt: \<^verbatim>\<open>RayXShards.collect\<close> calls \<^verbatim>\<open>collect\<close> on the list of
  partitions that \<^verbatim>\<open>to_ray\<close> handed to the constructor, and raises \<^verbatim>\<open>AttributeError\<close>.
\<close>

theorem handoff_collect_raises:
  "(case to_ray \<lparr>store_address = ''/tmp/plasma'',
             from_random = (\<lambda>i. if i = 0 then ''id0'' else ''id1''),
             get_node_ip = (\<lambda>i. if i = 0 then ''10.0.0.2'' else ''10.0.0.1''),
             put_returns = (\<lambda>oid. oid)\<rparr>
           \<lparr>eager_mode = True, unpersist_raises = None\<rparr>
           \<lparr>rdd = [Inr [PyInt 1], Inr [PyInt 2, PyInt 3]], rdd_is_cached = True,
            user_cached = False, eager = True, type_class_name = None, type_schema = None\<rparr>
           \<lparr>objects = Map.empty, writes = 0\<rparr> of
      (r1, s1, store1, out1) \<Rightarrow>
        r1 = Inr \<lparr>ray_rdd =
                   [\<lparr>object_id = ''id1'', node_ip = ''10.0.0.1'',
                     object_store_address = ''/tmp/plasma''\<rparr>,
                    \<lparr>object_id = ''id0'', node_ip = ''10.0.0.2'',
                     object_store_address = ''/tmp/plasma''\<rparr>]\<rparr>
        \<and> writes store1 = 2
        \<and> objects store1 ''id0'' = Some [PyInt 1]
        \<and> objects store1 ''id1'' = Some [PyInt 2, PyInt 3]
        \<and> (case r1 of Inl err \<Rightarrow> Inl err | Inr x1 \<Rightarrow> RayXShards_collect x1)
            = Inl (AttributeError ([CHR 0x27] @ ''list'' @ [CHR 0x27]
                     @ '' object has no attribute '' @ [CHR 0x27] @ ''collect'' @ [CHR 0x27]))
        \<and> (case to_ray \<lparr>store_address = ''/tmp/plasma'',
                     from_random = (\<lambda>i. if i = 0 then ''id0'' else ''id1''),
                     get_node_ip = (\<lambda>i. if i = 0 then ''10.0.0.2'' else ''10.0.0.1''),
                     put_returns = (\<lambda>oid. oid)\<rparr>
                   \<lparr>eager_mode = True, unpersist_raises = None\<rparr> s1 store1 of
              (r2, s2, store2, out2) \<Rightarrow>
                r2 = r1 \<and> writes store2 = 2
                \<and> objects store2 ''id0'' = Some [PyInt 1]
                \<and> objects store2 ''id1'' = Some [PyInt 2, PyInt 3]
                \<and> (case r2 of Inl err \<Rightarrow> Inl err | Inr x2 \<Rightarrow> RayXShards_collect x2)
                    = Inl (AttributeError ([CHR 0x27] @ ''list'' @ [CHR 0x27]
                             @ '' object has no attribute '' @ [CHR 0x27] @ ''collect''
                             @ [CHR 0x27]))))"
  by code_simp

section \<open>Partitioning local data\<close>



end
